theory Spec2Isabelle
  imports Complex_Main "HOL-Library.Word"
begin

section \<open>The scripting bridge of Zero-G-Engine (assembly/context.ts, assembly/mover.ts)\<close>

text \<open>
  The guest module of \<^verbatim>\<open>src/assembly/context.ts\<close> keeps two module-wide variables,
  \<^verbatim>\<open>currentEntityId\<close> and \<^verbatim>\<open>_self\<close>, allocates \<^verbatim>\<open>Entity\<close>,
  \<^verbatim>\<open>Transform\<close> and \<^verbatim>\<open>Vec3\<close> objects, and forwards every field access to one
  of eighteen imported host functions. The model below is a shallow embedding with an
  explicit object store: a reference is an address, so that "the same object instance"
  is equality of addresses.

  The source file also holds an earlier, flattened variant of the bridge (a class
  \<^verbatim>\<open>EntityProxy\<close> with no cache) and the script written against it. The variant
  modelled here is the one with \<^verbatim>\<open>Vec3\<close>, \<^verbatim>\<open>Transform\<close>, \<^verbatim>\<open>Entity\<close> and the cached
  \<^verbatim>\<open>self()\<close>, together with the script \<^verbatim>\<open>src/assembly/mover.ts\<close> that uses it.
\<close>

subsection \<open>Host functions\<close>

type_synonym u32 = "32 word"

text \<open>The nine imported getters and the nine imported setters, by their import names.\<close>

datatype host_getter =
    get_entity_position_x | get_entity_position_y | get_entity_position_z
  | get_entity_rotation_x | get_entity_rotation_y | get_entity_rotation_z
  | get_entity_scale_x | get_entity_scale_y | get_entity_scale_z

datatype host_setter =
    set_entity_position_x | set_entity_position_y | set_entity_position_z
  | set_entity_rotation_x | set_entity_rotation_y | set_entity_rotation_z
  | set_entity_scale_x | set_entity_scale_y | set_entity_scale_z

text \<open>
  The host is outside the repository: its functions are a parameter. A getter takes the
  entity id and returns an \<^verbatim>\<open>f32\<close>; a setter takes the id and an \<^verbatim>\<open>f32\<close>. Both may
  change the host's own state \<open>'h\<close> (a mock host counts calls in a getter). The type
  \<open>'f\<close> stands for \<^verbatim>\<open>f32\<close>: the bridge never inspects a float, it only passes it on.
  A host function that returns is modelled; one that aborts the call ends the module
  instance and is outside the model.
\<close>

record ('h, 'f) host_table =
  call_getter :: "host_getter \<Rightarrow> u32 \<Rightarrow> 'h \<Rightarrow> 'f \<times> 'h"
  call_setter :: "host_setter \<Rightarrow> u32 \<Rightarrow> 'f \<Rightarrow> 'h \<Rightarrow> 'h"

text \<open>One entry of the log of host-function invocations.\<close>

datatype 'f host_call =
    Getter_call host_getter u32
  | Setter_call host_setter u32 'f

subsection \<open>Objects and the store\<close>

type_synonym addr = nat

text \<open>
  \<^verbatim>\<open>class Vec3\<close>: the private fields declared by the constructor's parameters.
  A function reference is the name of the host function it refers to.
\<close>

record Vec3 =
  id_Vec3 :: u32
  getterX :: host_getter
  setterX :: host_setter
  getterY :: host_getter
  setterY :: host_setter
  getterZ :: host_getter
  setterZ :: host_setter

text \<open>
  \<^verbatim>\<open>class Transform\<close>: three references to \<^verbatim>\<open>Vec3\<close> objects. The constructor's
  parameter \<^verbatim>\<open>id\<close> is not a field: a Transform stores no id of its own.
\<close>

record Transform =
  position :: addr
  rotation :: addr
  scale :: addr

text \<open>\<^verbatim>\<open>class Entity\<close>: the public field \<^verbatim>\<open>id\<close> and a reference to a Transform.\<close>

record Entity =
  id_Entity :: u32
  transform :: addr

datatype obj = Vec3_obj Vec3 | Transform_obj Transform | Entity_obj Entity

text \<open>
  The state of one module instance: the two module variables, the store, the host's state,
  the log of host calls and the console. \<open>self_var\<close> is the variable \<^verbatim>\<open>_self\<close>
  (\<open>None\<close> is \<^verbatim>\<open>null\<close>). Objects are never freed or moved: the address of a new
  object is the next unused one.
\<close>

record ('h, 'f) world =
  currentEntityId :: u32
  self_var :: "addr option"
  heap :: "obj list"
  hstate :: 'h
  calls :: "'f host_call list"
  console :: "string list"

definition initial :: "'h \<Rightarrow> ('h, 'f) world" where
  "initial h = \<lparr>currentEntityId = 0, self_var = None, heap = [], hstate = h,
                calls = [], console = []\<rparr>"

text \<open>
  What can go wrong: the non-null assertion \<^verbatim>\<open>_self!\<close> on \<^verbatim>\<open>null\<close>, and, in the model
  only, a reference that does not point to an object of its class (the language's types
  exclude it; the model has to say what happens).
\<close>

datatype error = Null_assertion | Bad_reference

definition seq :: "error + 'a \<Rightarrow> ('a \<Rightarrow> error + 'b) \<Rightarrow> error + 'b" where
  "seq m f = (case m of Inl e \<Rightarrow> Inl e | Inr x \<Rightarrow> f x)"

definition load :: "('h, 'f) world \<Rightarrow> addr \<Rightarrow> obj option" where
  "load w a = (if a < length (heap w) then Some (heap w ! a) else None)"

definition load_Vec3 :: "('h, 'f) world \<Rightarrow> addr \<Rightarrow> Vec3 option" where
  "load_Vec3 w a = (case load w a of Some (Vec3_obj v) \<Rightarrow> Some v | _ \<Rightarrow> None)"

definition load_Transform :: "('h, 'f) world \<Rightarrow> addr \<Rightarrow> Transform option" where
  "load_Transform w a = (case load w a of Some (Transform_obj t) \<Rightarrow> Some t | _ \<Rightarrow> None)"

definition load_Entity :: "('h, 'f) world \<Rightarrow> addr \<Rightarrow> Entity option" where
  "load_Entity w a = (case load w a of Some (Entity_obj e) \<Rightarrow> Some e | _ \<Rightarrow> None)"

definition alloc :: "obj \<Rightarrow> ('h, 'f) world \<Rightarrow> addr \<times> ('h, 'f) world" where
  "alloc ob w = (length (heap w), w\<lparr>heap := heap w @ [ob]\<rparr>)"

subsection \<open>Context state\<close>

text \<open>\<^verbatim>\<open>export function setCurrentEntity(id: u32): void { currentEntityId = id; }\<close>\<close>

definition setCurrentEntity :: "u32 \<Rightarrow> ('h, 'f) world \<Rightarrow> ('h, 'f) world" where
  "setCurrentEntity i w = w\<lparr>currentEntityId := i\<rparr>"

subsection \<open>Constructors\<close>

definition new_Vec3 ::
  "u32 \<Rightarrow> host_getter \<Rightarrow> host_setter \<Rightarrow> host_getter \<Rightarrow> host_setter \<Rightarrow>
   host_getter \<Rightarrow> host_setter \<Rightarrow> ('h, 'f) world \<Rightarrow> addr \<times> ('h, 'f) world" where
  "new_Vec3 i gx sx gy sy gz sz w =
     alloc (Vec3_obj \<lparr>id_Vec3 = i, getterX = gx, setterX = sx, getterY = gy, setterY = sy,
                      getterZ = gz, setterZ = sz\<rparr>) w"

text \<open>
  \<^verbatim>\<open>new Transform(id)\<close> builds the three Vec3 objects in the order of the constructor's
  body. The model gives the Transform its address after its fields are built; the program
  cannot observe the order of the addresses, only that they are new.
\<close>

definition new_Transform :: "u32 \<Rightarrow> ('h, 'f) world \<Rightarrow> addr \<times> ('h, 'f) world" where
  "new_Transform i w =
     (let (p, w1) = new_Vec3 i get_entity_position_x set_entity_position_x
                               get_entity_position_y set_entity_position_y
                               get_entity_position_z set_entity_position_z w;
          (r, w2) = new_Vec3 i get_entity_rotation_x set_entity_rotation_x
                               get_entity_rotation_y set_entity_rotation_y
                               get_entity_rotation_z set_entity_rotation_z w1;
          (s, w3) = new_Vec3 i get_entity_scale_x set_entity_scale_x
                               get_entity_scale_y set_entity_scale_y
                               get_entity_scale_z set_entity_scale_z w2
      in alloc (Transform_obj \<lparr>position = p, rotation = r, scale = s\<rparr>) w3)"

definition new_Entity :: "u32 \<Rightarrow> ('h, 'f) world \<Rightarrow> addr \<times> ('h, 'f) world" where
  "new_Entity i w =
     (let (t, w1) = new_Transform i w
      in alloc (Entity_obj \<lparr>id_Entity = i, transform = t\<rparr>) w1)"

subsection \<open>The self() accessor\<close>

text \<open>
  The condition \<^verbatim>\<open>_self == null || _self!.id != currentEntityId\<close>; the right operand is
  evaluated only when \<^verbatim>\<open>_self\<close> is not null.
\<close>

definition self_is_stale :: "('h, 'f) world \<Rightarrow> error + bool" where
  "self_is_stale w =
     (case self_var w of
        None \<Rightarrow> Inr True
      | Some a \<Rightarrow>
          (case load_Entity w a of
             None \<Rightarrow> Inl Bad_reference
           | Some e \<Rightarrow> Inr (id_Entity e \<noteq> currentEntityId w)))"

text \<open>
  \<^verbatim>\<open>
  export function self(): Entity {
    if (_self == null || _self!.id != currentEntityId) {
      _self = new Entity(currentEntityId);
    }
    return _self!;
  }
  \<close>
\<close>

definition self :: "('h, 'f) world \<Rightarrow> error + (addr \<times> ('h, 'f) world)" where
  "self w =
     seq (self_is_stale w) (\<lambda>stale.
       let w' = (if stale
                 then (let (a, w1) = new_Entity (currentEntityId w) w
                       in w1\<lparr>self_var := Some a\<rparr>)
                 else w)
       in (case self_var w' of
             None \<Rightarrow> Inl Null_assertion
           | Some a \<Rightarrow> Inr (a, w')))"

subsection \<open>Field access\<close>

text \<open>Reading the reference fields \<^verbatim>\<open>.transform\<close>, \<^verbatim>\<open>.position\<close>, \<^verbatim>\<open>.rotation\<close>, \<^verbatim>\<open>.scale\<close>.\<close>

definition Entity_transform :: "('h, 'f) world \<Rightarrow> addr \<Rightarrow> error + addr" where
  "Entity_transform w a =
     (case load_Entity w a of None \<Rightarrow> Inl Bad_reference | Some e \<Rightarrow> Inr (transform e))"

definition Transform_position :: "('h, 'f) world \<Rightarrow> addr \<Rightarrow> error + addr" where
  "Transform_position w a =
     (case load_Transform w a of None \<Rightarrow> Inl Bad_reference | Some t \<Rightarrow> Inr (position t))"

definition Transform_rotation :: "('h, 'f) world \<Rightarrow> addr \<Rightarrow> error + addr" where
  "Transform_rotation w a =
     (case load_Transform w a of None \<Rightarrow> Inl Bad_reference | Some t \<Rightarrow> Inr (rotation t))"

definition Transform_scale :: "('h, 'f) world \<Rightarrow> addr \<Rightarrow> error + addr" where
  "Transform_scale w a =
     (case load_Transform w a of None \<Rightarrow> Inl Bad_reference | Some t \<Rightarrow> Inr (scale t))"

text \<open>
  Calling a function reference: the host function runs on the host's state and the
  invocation is logged.
\<close>

definition invoke_getter ::
  "('h, 'f) host_table \<Rightarrow> host_getter \<Rightarrow> u32 \<Rightarrow> ('h, 'f) world \<Rightarrow> 'f \<times> ('h, 'f) world" where
  "invoke_getter H g i w =
     (let (v, h') = call_getter H g i (hstate w)
      in (v, w\<lparr>hstate := h', calls := calls w @ [Getter_call g i]\<rparr>))"

definition invoke_setter ::
  "('h, 'f) host_table \<Rightarrow> host_setter \<Rightarrow> u32 \<Rightarrow> 'f \<Rightarrow> ('h, 'f) world \<Rightarrow> ('h, 'f) world" where
  "invoke_setter H s i v w =
     w\<lparr>hstate := call_setter H s i v (hstate w), calls := calls w @ [Setter_call s i v]\<rparr>"

text \<open>
  The six accessors of \<^verbatim>\<open>Vec3\<close>, for example
  \<^verbatim>\<open>get x(): f32 { return this.getterX(this.id); }\<close> and
  \<^verbatim>\<open>set x(val: f32) { this.setterX(this.id, val); }\<close>.
\<close>

definition Vec3_get_x ::
  "('h, 'f) host_table \<Rightarrow> addr \<Rightarrow> ('h, 'f) world \<Rightarrow> error + ('f \<times> ('h, 'f) world)" where
  "Vec3_get_x H this w =
     (case load_Vec3 w this of
        None \<Rightarrow> Inl Bad_reference
      | Some v \<Rightarrow> Inr (invoke_getter H (getterX v) (id_Vec3 v) w))"

definition Vec3_set_x ::
  "('h, 'f) host_table \<Rightarrow> addr \<Rightarrow> 'f \<Rightarrow> ('h, 'f) world \<Rightarrow> error + ('h, 'f) world" where
  "Vec3_set_x H this val w =
     (case load_Vec3 w this of
        None \<Rightarrow> Inl Bad_reference
      | Some v \<Rightarrow> Inr (invoke_setter H (setterX v) (id_Vec3 v) val w))"

definition Vec3_get_y ::
  "('h, 'f) host_table \<Rightarrow> addr \<Rightarrow> ('h, 'f) world \<Rightarrow> error + ('f \<times> ('h, 'f) world)" where
  "Vec3_get_y H this w =
     (case load_Vec3 w this of
        None \<Rightarrow> Inl Bad_reference
      | Some v \<Rightarrow> Inr (invoke_getter H (getterY v) (id_Vec3 v) w))"

definition Vec3_set_y ::
  "('h, 'f) host_table \<Rightarrow> addr \<Rightarrow> 'f \<Rightarrow> ('h, 'f) world \<Rightarrow> error + ('h, 'f) world" where
  "Vec3_set_y H this val w =
     (case load_Vec3 w this of
        None \<Rightarrow> Inl Bad_reference
      | Some v \<Rightarrow> Inr (invoke_setter H (setterY v) (id_Vec3 v) val w))"

definition Vec3_get_z ::
  "('h, 'f) host_table \<Rightarrow> addr \<Rightarrow> ('h, 'f) world \<Rightarrow> error + ('f \<times> ('h, 'f) world)" where
  "Vec3_get_z H this w =
     (case load_Vec3 w this of
        None \<Rightarrow> Inl Bad_reference
      | Some v \<Rightarrow> Inr (invoke_getter H (getterZ v) (id_Vec3 v) w))"

definition Vec3_set_z ::
  "('h, 'f) host_table \<Rightarrow> addr \<Rightarrow> 'f \<Rightarrow> ('h, 'f) world \<Rightarrow> error + ('h, 'f) world" where
  "Vec3_set_z H this val w =
     (case load_Vec3 w this of
        None \<Rightarrow> Inl Bad_reference
      | Some v \<Rightarrow> Inr (invoke_setter H (setterZ v) (id_Vec3 v) val w))"

subsection \<open>The expressions a script writes\<close>

text \<open>
  The claims speak of the nine channels \<^verbatim>\<open>self().transform.<category>.<axis>\<close>.
  \<open>category\<close> and \<open>axis\<close> index them; \<open>getter_of\<close> and \<open>setter_of\<close> give the host
  function that the naming convention \<^verbatim>\<open>get_entity_<category>_<axis>\<close> assigns to a channel.
\<close>

datatype category = Position | Rotation | Scale

datatype axis = X | Y | Z

fun getter_of :: "category \<Rightarrow> axis \<Rightarrow> host_getter" where
  "getter_of Position X = get_entity_position_x"
| "getter_of Position Y = get_entity_position_y"
| "getter_of Position Z = get_entity_position_z"
| "getter_of Rotation X = get_entity_rotation_x"
| "getter_of Rotation Y = get_entity_rotation_y"
| "getter_of Rotation Z = get_entity_rotation_z"
| "getter_of Scale X = get_entity_scale_x"
| "getter_of Scale Y = get_entity_scale_y"
| "getter_of Scale Z = get_entity_scale_z"

fun setter_of :: "category \<Rightarrow> axis \<Rightarrow> host_setter" where
  "setter_of Position X = set_entity_position_x"
| "setter_of Position Y = set_entity_position_y"
| "setter_of Position Z = set_entity_position_z"
| "setter_of Rotation X = set_entity_rotation_x"
| "setter_of Rotation Y = set_entity_rotation_y"
| "setter_of Rotation Z = set_entity_rotation_z"
| "setter_of Scale X = set_entity_scale_x"
| "setter_of Scale Y = set_entity_scale_y"
| "setter_of Scale Z = set_entity_scale_z"

definition Transform_field :: "category \<Rightarrow> ('h, 'f) world \<Rightarrow> addr \<Rightarrow> error + addr" where
  "Transform_field c w a =
     (case c of
        Position \<Rightarrow> Transform_position w a
      | Rotation \<Rightarrow> Transform_rotation w a
      | Scale \<Rightarrow> Transform_scale w a)"

definition Vec3_get ::
  "axis \<Rightarrow> ('h, 'f) host_table \<Rightarrow> addr \<Rightarrow> ('h, 'f) world \<Rightarrow> error + ('f \<times> ('h, 'f) world)" where
  "Vec3_get ax H this w =
     (case ax of
        X \<Rightarrow> Vec3_get_x H this w
      | Y \<Rightarrow> Vec3_get_y H this w
      | Z \<Rightarrow> Vec3_get_z H this w)"

definition Vec3_set ::
  "axis \<Rightarrow> ('h, 'f) host_table \<Rightarrow> addr \<Rightarrow> 'f \<Rightarrow> ('h, 'f) world \<Rightarrow> error + ('h, 'f) world" where
  "Vec3_set ax H this val w =
     (case ax of
        X \<Rightarrow> Vec3_set_x H this val w
      | Y \<Rightarrow> Vec3_set_y H this val w
      | Z \<Rightarrow> Vec3_set_z H this val w)"

text \<open>The expression \<^verbatim>\<open>self().transform.<category>\<close>: a call and two field reads.\<close>

definition self_transform_field ::
  "category \<Rightarrow> ('h, 'f) world \<Rightarrow> error + (addr \<times> ('h, 'f) world)" where
  "self_transform_field c w =
     seq (self w) (\<lambda>(e, w').
     seq (Entity_transform w' e) (\<lambda>t.
     seq (Transform_field c w' t) (\<lambda>p. Inr (p, w'))))"

text \<open>Reading \<^verbatim>\<open>self().transform.<category>.<axis>\<close>.\<close>

definition read_self ::
  "category \<Rightarrow> axis \<Rightarrow> ('h, 'f) host_table \<Rightarrow> ('h, 'f) world \<Rightarrow>
   error + ('f \<times> ('h, 'f) world)" where
  "read_self c ax H w = seq (self_transform_field c w) (\<lambda>(p, w'). Vec3_get ax H p w')"

text \<open>The assignment \<^verbatim>\<open>self().transform.<category>.<axis> = val\<close>.\<close>

definition write_self ::
  "category \<Rightarrow> axis \<Rightarrow> ('h, 'f) host_table \<Rightarrow> 'f \<Rightarrow> ('h, 'f) world \<Rightarrow>
   error + ('h, 'f) world" where
  "write_self c ax H val w = seq (self_transform_field c w) (\<lambda>(p, w'). Vec3_set ax H p val w')"

subsection \<open>The sample script (assembly/mover.ts)\<close>

text \<open>
  The script computes on \<^verbatim>\<open>f32\<close> values. Its arithmetic is a parameter: addition,
  multiplication, the \<^verbatim>\<open>f32\<close> constant that a decimal literal denotes, and
  \<^verbatim>\<open>toString\<close> of the standard library.
\<close>

record 'f f32_ops =
  f32_add :: "'f \<Rightarrow> 'f \<Rightarrow> 'f"
  f32_mul :: "'f \<Rightarrow> 'f \<Rightarrow> 'f"
  f32_const :: "rat \<Rightarrow> 'f"
  f32_toString :: "'f \<Rightarrow> string"

definition console_log :: "string \<Rightarrow> ('h, 'f) world \<Rightarrow> ('h, 'f) world" where
  "console_log s w = w\<lparr>console := console w @ [s]\<rparr>"

text \<open>
  \<^verbatim>\<open>
  export function init(): void {
    console.log("Setting initial position");
    self().transform.position.x = -2.0;
    self().transform.position.y = 1.0;
    console.log("Position set - x: " + self().transform.position.x.toString() +
                " y: " + self().transform.position.y.toString());
  }
  \<close>
\<close>

definition init ::
  "('h, 'f) host_table \<Rightarrow> 'f f32_ops \<Rightarrow> ('h, 'f) world \<Rightarrow> error + ('h, 'f) world" where
  "init H F w =
     seq (write_self Position X H (f32_const F (- 2)) (console_log ''Setting initial position'' w))
       (\<lambda>w1.
     seq (write_self Position Y H (f32_const F 1) w1) (\<lambda>w2.
     seq (read_self Position X H w2) (\<lambda>(x, w3).
     seq (read_self Position Y H w3) (\<lambda>(y, w4).
     Inr (console_log (''Position set - x: '' @ f32_toString F x @
                       '' y: '' @ f32_toString F y) w4)))))"

text \<open>
  The compound assignment \<^verbatim>\<open>self().transform.<category>.<axis> += rhs\<close>: the channel
  is read, the right-hand side is added, the sum is written. AssemblyScript compiles
  \<^verbatim>\<open>a.x += v\<close> with a setter as \<^verbatim>\<open>a.x = a.x + v\<close>, evaluating \<^verbatim>\<open>a\<close> for the read and
  again for the write: \<open>add_assign_self\<close>. Evaluating \<^verbatim>\<open>a\<close> once, as TypeScript does, is
  \<open>add_assign_once\<close>; the two agree in every well-formed state (lemma
  \<open>add_assign_once_eq\<close>), since the second \<^verbatim>\<open>self()\<close> finds the handle of the first in
  \<^verbatim>\<open>_self\<close>.
\<close>

definition add_assign_self ::
  "category \<Rightarrow> axis \<Rightarrow> ('h, 'f) host_table \<Rightarrow> 'f f32_ops \<Rightarrow> 'f \<Rightarrow> ('h, 'f) world \<Rightarrow>
   error + ('h, 'f) world" where
  "add_assign_self c ax H F rhs w =
     seq (read_self c ax H w) (\<lambda>(old, w1). write_self c ax H (f32_add F old rhs) w1)"

definition add_assign_once ::
  "category \<Rightarrow> axis \<Rightarrow> ('h, 'f) host_table \<Rightarrow> 'f f32_ops \<Rightarrow> 'f \<Rightarrow> ('h, 'f) world \<Rightarrow>
   error + ('h, 'f) world" where
  "add_assign_once c ax H F rhs w =
     seq (self_transform_field c w) (\<lambda>(p, w1).
     seq (Vec3_get ax H p w1) (\<lambda>(old, w2). Vec3_set ax H p (f32_add F old rhs) w2))"

text \<open>
  \<^verbatim>\<open>
  export function update(dt: f32): void {
    const oldX = self().transform.position.x;
    const oldY = self().transform.position.y;
    self().transform.position.x += dt * 1.01;
    self().transform.position.y += dt * 1.01;
    const newX = self().transform.position.x;
    const newY = self().transform.position.y;
    console.log("Update - oldX: " + oldX.toString() + " newX: " + newX.toString() +
                " oldY: " + oldY.toString() + " newY: " + newY.toString());
  }
  \<close>
\<close>

definition update ::
  "('h, 'f) host_table \<Rightarrow> 'f f32_ops \<Rightarrow> 'f \<Rightarrow> ('h, 'f) world \<Rightarrow> error + ('h, 'f) world" where
  "update H F dt w =
     seq (read_self Position X H w) (\<lambda>(oldX, w1).
     seq (read_self Position Y H w1) (\<lambda>(oldY, w2).
     seq (add_assign_self Position X H F (f32_mul F dt (f32_const F (101 / 100))) w2) (\<lambda>w3.
     seq (add_assign_self Position Y H F (f32_mul F dt (f32_const F (101 / 100))) w3) (\<lambda>w4.
     seq (read_self Position X H w4) (\<lambda>(newX, w5).
     seq (read_self Position Y H w5) (\<lambda>(newY, w6).
     Inr (console_log (''Update - oldX: '' @ f32_toString F oldX @
                       '' newX: '' @ f32_toString F newX @
                       '' oldY: '' @ f32_toString F oldY @
                       '' newY: '' @ f32_toString F newY) w6)))))))"

subsection \<open>Runs of the module\<close>

text \<open>
  What the host and a script can do to a module instance: the host calls
  \<^verbatim>\<open>setCurrentEntity\<close>, \<^verbatim>\<open>init\<close> and \<^verbatim>\<open>update\<close>; a script calls \<^verbatim>\<open>self()\<close> and
  reads or writes an axis of a Vec3 it holds a reference to.
\<close>

datatype 'f op =
    Call_setCurrentEntity u32
  | Call_self
  | Get_axis addr axis
  | Set_axis addr axis 'f
  | Call_init
  | Call_update 'f

definition step ::
  "('h, 'f) host_table \<Rightarrow> 'f f32_ops \<Rightarrow> 'f op \<Rightarrow> ('h, 'f) world \<Rightarrow> error + ('h, 'f) world" where
  "step H F o1 w =
     (case o1 of
        Call_setCurrentEntity i \<Rightarrow> Inr (setCurrentEntity i w)
      | Call_self \<Rightarrow> seq (self w) (\<lambda>(a, w'). Inr w')
      | Get_axis p ax \<Rightarrow> seq (Vec3_get ax H p w) (\<lambda>(v, w'). Inr w')
      | Set_axis p ax v \<Rightarrow> Vec3_set ax H p v w
      | Call_init \<Rightarrow> init H F w
      | Call_update dt \<Rightarrow> update H F dt w)"

fun run ::
  "('h, 'f) host_table \<Rightarrow> 'f f32_ops \<Rightarrow> 'f op list \<Rightarrow> ('h, 'f) world \<Rightarrow>
   error + ('h, 'f) world" where
  "run H F [] w = Inr w"
| "run H F (o1 # os) w = seq (step H F o1 w) (run H F os)"

definition is_setCurrentEntity :: "'f op \<Rightarrow> bool" where
  "is_setCurrentEntity o1 = (case o1 of Call_setCurrentEntity i \<Rightarrow> True | _ \<Rightarrow> False)"

text \<open>\<open>n\<close> consecutive calls of \<^verbatim>\<open>self()\<close>, with the handles they return.\<close>

fun self_calls :: "nat \<Rightarrow> ('h, 'f) world \<Rightarrow> error + (addr list \<times> ('h, 'f) world)" where
  "self_calls 0 w = Inr ([], w)"
| "self_calls (Suc n) w =
     seq (self w) (\<lambda>(a, w1). seq (self_calls n w1) (\<lambda>(as, w2). Inr (a # as, w2)))"

subsection \<open>Well-formed stores\<close>

text \<open>
  A Vec3 at \<open>p\<close> is bound to entity \<open>i\<close> and wired to the host functions of category \<open>c\<close>.
\<close>

definition Vec3_bound :: "('h, 'f) world \<Rightarrow> u32 \<Rightarrow> category \<Rightarrow> addr \<Rightarrow> bool" where
  "Vec3_bound w i c p =
     (case load_Vec3 w p of
        None \<Rightarrow> False
      | Some v \<Rightarrow>
          id_Vec3 v = i \<and>
          getterX v = getter_of c X \<and> setterX v = setter_of c X \<and>
          getterY v = getter_of c Y \<and> setterY v = setter_of c Y \<and>
          getterZ v = getter_of c Z \<and> setterZ v = setter_of c Z)"

definition Transform_bound :: "('h, 'f) world \<Rightarrow> u32 \<Rightarrow> addr \<Rightarrow> bool" where
  "Transform_bound w i t =
     (case load_Transform w t of
        None \<Rightarrow> False
      | Some tr \<Rightarrow>
          Vec3_bound w i Position (position tr) \<and>
          Vec3_bound w i Rotation (rotation tr) \<and>
          Vec3_bound w i Scale (scale tr))"

definition obj_bound :: "('h, 'f) world \<Rightarrow> obj \<Rightarrow> bool" where
  "obj_bound w ob =
     (case ob of Entity_obj e \<Rightarrow> Transform_bound w (id_Entity e) (transform e) | _ \<Rightarrow> True)"

definition self_var_valid :: "('h, 'f) world \<Rightarrow> bool" where
  "self_var_valid w =
     (case self_var w of None \<Rightarrow> True | Some a \<Rightarrow> load_Entity w a \<noteq> None)"

definition well_formed :: "('h, 'f) world \<Rightarrow> bool" where
  "well_formed w = (list_all (obj_bound w) (heap w) \<and> self_var_valid w)"

text \<open>The structural invariant of a handle, as the data model states it: the ids agree.\<close>

definition ids_agree :: "('h, 'f) world \<Rightarrow> Entity \<Rightarrow> bool" where
  "ids_agree w e =
     (case load_Transform w (transform e) of
        None \<Rightarrow> False
      | Some tr \<Rightarrow>
          (case (load_Vec3 w (position tr), load_Vec3 w (rotation tr), load_Vec3 w (scale tr)) of
             (Some p, Some r, Some s) \<Rightarrow>
               id_Vec3 p = id_Entity e \<and> id_Vec3 r = id_Entity e \<and> id_Vec3 s = id_Entity e
           | _ \<Rightarrow> False))"

subsection \<open>A host that stores and loads faithfully\<close>

text \<open>
  The pair of a getter and a setter is a faithful store/load when the getter returns what
  the setter last stored for the entity.
\<close>

definition faithful :: "('h, 'f) host_table \<Rightarrow> host_getter \<Rightarrow> host_setter \<Rightarrow> bool" where
  "faithful H g s = (\<forall>i v h. fst (call_getter H g i (call_setter H s i v h)) = v)"

text \<open>
  A mock host: one cell per getter and entity id. A setter writes the cell of the getter it
  is paired with; a getter reads its cell and changes nothing.
\<close>

fun paired_getter :: "host_setter \<Rightarrow> host_getter" where
  "paired_getter set_entity_position_x = get_entity_position_x"
| "paired_getter set_entity_position_y = get_entity_position_y"
| "paired_getter set_entity_position_z = get_entity_position_z"
| "paired_getter set_entity_rotation_x = get_entity_rotation_x"
| "paired_getter set_entity_rotation_y = get_entity_rotation_y"
| "paired_getter set_entity_rotation_z = get_entity_rotation_z"
| "paired_getter set_entity_scale_x = get_entity_scale_x"
| "paired_getter set_entity_scale_y = get_entity_scale_y"
| "paired_getter set_entity_scale_z = get_entity_scale_z"

type_synonym 'f cells = "host_getter \<times> u32 \<Rightarrow> 'f"

definition store_host :: "('f cells, 'f) host_table" where
  "store_host =
     \<lparr>call_getter = (\<lambda>g i h. (h (g, i), h)),
      call_setter = (\<lambda>s i v h. h((paired_getter s, i) := v))\<rparr>"

subsection \<open>Notions used in the statements and proofs\<close>

text \<open>
  "Construct a fresh EntityHandle bound to the current id and store it as the cache":
  the assignment \<^verbatim>\<open>_self = new Entity(currentEntityId)\<close> with the handle it yields.
\<close>

definition fresh_handle :: "('h, 'f) world \<Rightarrow> addr \<times> ('h, 'f) world" where
  "fresh_handle w =
     (let (a, w1) = new_Entity (currentEntityId w) w in (a, w1\<lparr>self_var := Some a\<rparr>))"

text \<open>The function references that the accessors of an axis call.\<close>

definition axis_getter :: "axis \<Rightarrow> Vec3 \<Rightarrow> host_getter" where
  "axis_getter ax v = (case ax of X \<Rightarrow> getterX v | Y \<Rightarrow> getterY v | Z \<Rightarrow> getterZ v)"

definition axis_setter :: "axis \<Rightarrow> Vec3 \<Rightarrow> host_setter" where
  "axis_setter ax v = (case ax of X \<Rightarrow> setterX v | Y \<Rightarrow> setterY v | Z \<Rightarrow> setterZ v)"

text \<open>
  The five objects that \<^verbatim>\<open>new Entity(i)\<close> adds to a store of \<open>n\<close> objects, the store
  after a rebuild, and the test that \<^verbatim>\<open>_self\<close> holds a handle for the current id.
\<close>

definition built :: "u32 \<Rightarrow> nat \<Rightarrow> obj list" where
  "built i n =
     [Vec3_obj \<lparr>id_Vec3 = i, getterX = get_entity_position_x, setterX = set_entity_position_x,
                getterY = get_entity_position_y, setterY = set_entity_position_y,
                getterZ = get_entity_position_z, setterZ = set_entity_position_z\<rparr>,
      Vec3_obj \<lparr>id_Vec3 = i, getterX = get_entity_rotation_x, setterX = set_entity_rotation_x,
                getterY = get_entity_rotation_y, setterY = set_entity_rotation_y,
                getterZ = get_entity_rotation_z, setterZ = set_entity_rotation_z\<rparr>,
      Vec3_obj \<lparr>id_Vec3 = i, getterX = get_entity_scale_x, setterX = set_entity_scale_x,
                getterY = get_entity_scale_y, setterY = set_entity_scale_y,
                getterZ = get_entity_scale_z, setterZ = set_entity_scale_z\<rparr>,
      Transform_obj \<lparr>position = n, rotation = n + 1, scale = n + 2\<rparr>,
      Entity_obj \<lparr>id_Entity = i, transform = n + 3\<rparr>]"

definition rebuilt :: "('h, 'f) world \<Rightarrow> ('h, 'f) world" where
  "rebuilt w = w\<lparr>heap := heap w @ built (currentEntityId w) (length (heap w)),
                 self_var := Some (length (heap w) + 4)\<rparr>"

definition current :: "('h, 'f) world \<Rightarrow> bool" where
  "current w =
     (case self_var w of
        None \<Rightarrow> False
      | Some a \<Rightarrow> (case load_Entity w a of None \<Rightarrow> False
                   | Some e \<Rightarrow> id_Entity e = currentEntityId w))"

definition after_self :: "('h, 'f) world \<Rightarrow> ('h, 'f) world" where
  "after_self w = (if current w then w else rebuilt w)"

text \<open>
  What \<^verbatim>\<open>init\<close> and \<^verbatim>\<open>update\<close> do once \<^verbatim>\<open>_self\<close> is current: a fixed sequence of
  host calls and one line on the console.
\<close>

definition init_tail ::
  "('h, 'f) host_table \<Rightarrow> 'f f32_ops \<Rightarrow> ('h, 'f) world \<Rightarrow> ('h, 'f) world" where
  "init_tail H F w =
     (let i = currentEntityId w;
          w1 = invoke_setter H set_entity_position_x i (f32_const F (- 2)) w;
          w2 = invoke_setter H set_entity_position_y i (f32_const F 1) w1;
          r3 = invoke_getter H get_entity_position_x i w2;
          r4 = invoke_getter H get_entity_position_y i (snd r3)
      in console_log (''Position set - x: '' @ f32_toString F (fst r3) @
                      '' y: '' @ f32_toString F (fst r4)) (snd r4))"

definition update_tail ::
  "('h, 'f) host_table \<Rightarrow> 'f f32_ops \<Rightarrow> 'f \<Rightarrow> ('h, 'f) world \<Rightarrow> ('h, 'f) world" where
  "update_tail H F dt w =
     (let i = currentEntityId w;
          r1 = invoke_getter H get_entity_position_x i w;
          r2 = invoke_getter H get_entity_position_y i (snd r1);
          rhs = f32_mul F dt (f32_const F (101 / 100));
          r3 = invoke_getter H get_entity_position_x i (snd r2);
          w3 = invoke_setter H set_entity_position_x i (f32_add F (fst r3) rhs) (snd r3);
          r4 = invoke_getter H get_entity_position_y i w3;
          w4 = invoke_setter H set_entity_position_y i (f32_add F (fst r4) rhs) (snd r4);
          r5 = invoke_getter H get_entity_position_x i w4;
          r6 = invoke_getter H get_entity_position_y i (snd r5)
      in console_log (''Update - oldX: '' @ f32_toString F (fst r1) @
                      '' newX: '' @ f32_toString F (fst r5) @
                      '' oldY: '' @ f32_toString F (fst r2) @
                      '' newY: '' @ f32_toString F (fst r6)) (snd r6))"

subsection \<open>Binary32 arithmetic on finite values\<close>

text \<open>
  \<^verbatim>\<open>f32\<close> is IEEE 754 binary32. A finite value is a rational number; \<open>None\<close> stands
  for a value that is not finite (an infinity or a NaN), and the two zeros are one. Addition
  and multiplication return the exact result rounded to nearest, ties to even, with 24
  significant bits, exponents from -126 to 127 and gradual underflow; a result of magnitude
  \<open>2 ^ 128\<close> or more after rounding is not finite. A sum or product with an operand that
  is not finite is not finite.
\<close>

definition round_ties_even :: "rat \<Rightarrow> int" where
  "round_ties_even q =
     (let f = \<lfloor>q\<rfloor>; r = q - of_int f
      in if r < 1 / 2 then f
         else if 1 / 2 < r then f + 1
         else if even f then f else f + 1)"

text \<open>
  The power of two at the bottom of the binade of \<open>q\<close>: the greatest \<open>2 ^ e \<le> q\<close> with
  \<open>e\<close> kept between \<open>- emin\<close> and \<open>emax\<close>, found from \<open>2 ^ 0\<close> upwards or downwards.
\<close>

fun binade_up :: "nat \<Rightarrow> rat \<Rightarrow> rat \<Rightarrow> rat" where
  "binade_up 0 q b = b"
| "binade_up (Suc n) q b = (if 2 * b \<le> q then binade_up n q (2 * b) else b)"

fun binade_down :: "nat \<Rightarrow> rat \<Rightarrow> rat \<Rightarrow> rat" where
  "binade_down 0 q b = b"
| "binade_down (Suc n) q b = (if b \<le> q then b else binade_down n q (b / 2))"

definition binade :: "nat \<Rightarrow> nat \<Rightarrow> rat \<Rightarrow> rat" where
  "binade emin emax q =
     (if 1 \<le> \<bar>q\<bar> then binade_up emax \<bar>q\<bar> 1 else binade_down emin \<bar>q\<bar> 1)"

definition round_binary :: "nat \<Rightarrow> nat \<Rightarrow> nat \<Rightarrow> rat \<Rightarrow> rat option" where
  "round_binary p emin emax q =
     (let u = binade emin emax q / 2 ^ (p - 1);
          r = of_int (round_ties_even (q / u)) * u
      in if 2 ^ (emax + 1) \<le> \<bar>r\<bar> then None else Some r)"

definition f32_round :: "rat \<Rightarrow> rat option" where
  "f32_round = round_binary 24 126 127"

definition f64_round :: "rat \<Rightarrow> rat option" where
  "f64_round = round_binary 53 1022 1023"

text \<open>
  A float literal is read as an \<^verbatim>\<open>f64\<close> and, where the context asks for an \<^verbatim>\<open>f32\<close> (the
  other operand of \<^verbatim>\<open>dt * 1.01\<close>, the target of an assignment), converted to \<^verbatim>\<open>f32\<close>.
  \<^verbatim>\<open>toString\<close> stays a parameter.
\<close>

definition binary32 :: "(rat option \<Rightarrow> string) \<Rightarrow> rat option f32_ops" where
  "binary32 ts =
     \<lparr>f32_add = (\<lambda>a b. case (a, b) of (Some x, Some y) \<Rightarrow> f32_round (x + y) | _ \<Rightarrow> None),
      f32_mul = (\<lambda>a b. case (a, b) of (Some x, Some y) \<Rightarrow> f32_round (x * y) | _ \<Rightarrow> None),
      f32_const = (\<lambda>q. case f64_round q of None \<Rightarrow> None | Some d \<Rightarrow> f32_round d),
      f32_toString = ts\<rparr>"

subsection \<open>A concrete run\<close>

text \<open>
  The host sets the current entity to 7 and a script calls \<^verbatim>\<open>self()\<close>: the state reached,
  on the mock host with integer cells. The script's arithmetic is not used by this run.
\<close>

definition demo_ops :: "int f32_ops" where
  "demo_ops = \<lparr>f32_add = (+), f32_mul = (*), f32_const = floor, f32_toString = (\<lambda>_. [])\<rparr>"

definition demo_world :: "(int cells, int) world" where
  "demo_world =
     \<lparr>currentEntityId = 7, self_var = Some 4, heap = built 7 0, hstate = (\<lambda>_. 0),
      calls = [], console = []\<rparr>"

section \<open>Lemmas\<close>

lemma new_Entity_eq:
  "new_Entity i w = (length (heap w) + 4, w\<lparr>heap := heap w @ built i (length (heap w))\<rparr>)"
  by (simp add: new_Entity_def new_Transform_def new_Vec3_def alloc_def built_def)

lemma self_eq:
  assumes "self_var_valid w"
  shows "self w = Inr (the (self_var (after_self w)), after_self w)"
  using assms
  by (auto simp: self_def self_is_stale_def seq_def after_self_def current_def rebuilt_def
      new_Entity_eq self_var_valid_def split: option.splits)

lemma load_append:
  "load (w\<lparr>heap := heap w @ xs\<rparr>) a =
     (if a < length (heap w) then Some (heap w ! a)
      else if a < length (heap w) + length xs then Some (xs ! (a - length (heap w)))
      else None)"
  by (simp add: load_def nth_append)

lemma load_mono:
  assumes "heap w' = heap w @ xs" "load w a = Some ob"
  shows "load w' a = Some ob"
  using assms by (auto simp: load_def nth_append split: if_splits)

lemma Vec3_bound_mono:
  assumes "heap w' = heap w @ xs" "Vec3_bound w i c p"
  shows "Vec3_bound w' i c p"
proof -
  from assms(2) obtain ob where "load w p = Some ob"
    by (auto simp: Vec3_bound_def load_Vec3_def split: option.splits)
  with assms show ?thesis
    using load_mono [OF assms(1)] by (auto simp: Vec3_bound_def load_Vec3_def)
qed

lemma Transform_bound_mono:
  assumes "heap w' = heap w @ xs" "Transform_bound w i t"
  shows "Transform_bound w' i t"
proof -
  from assms(2) obtain ob where "load w t = Some ob"
    by (auto simp: Transform_bound_def load_Transform_def split: option.splits)
  with assms show ?thesis
    using load_mono [OF assms(1)] Vec3_bound_mono [OF assms(1)]
    by (auto simp: Transform_bound_def load_Transform_def split: option.splits obj.splits)
qed

lemma obj_bound_mono:
  assumes "heap w' = heap w @ xs" "obj_bound w ob"
  shows "obj_bound w' ob"
  using assms Transform_bound_mono [OF assms(1)]
  by (auto simp: obj_bound_def split: obj.splits)

lemma load_Entity_mono:
  assumes "heap w' = heap w @ xs" "load_Entity w a = Some e"
  shows "load_Entity w' a = Some e"
proof -
  from assms(2) have "load w a = Some (Entity_obj e)"
    by (auto simp: load_Entity_def split: option.splits obj.splits)
  from load_mono [OF assms(1) this] show ?thesis by (simp add: load_Entity_def)
qed

lemma wf_same_heap:
  assumes "heap w' = heap w" "self_var w' = self_var w" "well_formed w"
  shows "well_formed w'"
proof -
  have h: "heap w' = heap w @ []" using assms(1) by simp
  have "list_all (obj_bound w') (heap w')"
    using assms obj_bound_mono [OF h] by (auto simp: well_formed_def list_all_iff)
  moreover have "self_var_valid w'"
    using assms load_Entity_mono [OF h]
    by (auto simp: well_formed_def self_var_valid_def split: option.splits)
  ultimately show ?thesis by (simp add: well_formed_def)
qed

lemma built_bound:
  assumes "heap w' = heap w @ built i (length (heap w))"
  shows "list_all (obj_bound w') (built i (length (heap w)))"
  using assms
  by (simp add: built_def obj_bound_def Transform_bound_def Vec3_bound_def load_Transform_def
      load_Vec3_def load_def nth_append)

lemma load_Entity_rebuilt:
  "load_Entity (rebuilt w) (length (heap w) + 4) =
     Some \<lparr>id_Entity = currentEntityId w, transform = length (heap w) + 3\<rparr>"
  by (simp add: rebuilt_def load_Entity_def load_def nth_append built_def)

lemma wf_rebuilt:
  assumes "well_formed w"
  shows "well_formed (rebuilt w)"
proof -
  have h: "heap (rebuilt w) = heap w @ built (currentEntityId w) (length (heap w))"
    by (simp add: rebuilt_def)
  have "list_all (obj_bound (rebuilt w)) (heap w)"
    using assms obj_bound_mono [OF h] by (auto simp: well_formed_def list_all_iff)
  moreover have "list_all (obj_bound (rebuilt w)) (built (currentEntityId w) (length (heap w)))"
    by (rule built_bound [OF h])
  moreover have "self_var_valid (rebuilt w)"
    using load_Entity_rebuilt [of w] by (simp add: self_var_valid_def rebuilt_def)
  ultimately show ?thesis by (simp add: well_formed_def h)
qed

lemma current_rebuilt: "current (rebuilt w)"
  using load_Entity_rebuilt [of w] by (simp add: current_def rebuilt_def)

lemma wf_after_self: "well_formed w \<Longrightarrow> well_formed (after_self w)"
  by (simp add: after_self_def wf_rebuilt)

lemma current_after_self: "current (after_self w)"
  by (simp add: after_self_def current_rebuilt)

lemma after_self_current: "current w \<Longrightarrow> after_self w = w"
  by (simp add: after_self_def)

lemma after_self_frame:
  "currentEntityId (after_self w) = currentEntityId w"
  "hstate (after_self w) = hstate w"
  "calls (after_self w) = calls w"
  "console (after_self w) = console w"
  by (simp_all add: after_self_def rebuilt_def)

lemma wf_initial: "well_formed (initial h)"
  by (simp add: well_formed_def initial_def self_var_valid_def)

lemma current_path:
  assumes "well_formed w" "current w"
  shows "\<exists>a e tr. self_var w = Some a \<and> load_Entity w a = Some e \<and>
           id_Entity e = currentEntityId w \<and>
           load_Transform w (transform e) = Some tr \<and>
           Vec3_bound w (currentEntityId w) Position (position tr) \<and>
           Vec3_bound w (currentEntityId w) Rotation (rotation tr) \<and>
           Vec3_bound w (currentEntityId w) Scale (scale tr)"
proof -
  from assms(2) obtain a e where a: "self_var w = Some a" "load_Entity w a = Some e"
    "id_Entity e = currentEntityId w"
    by (auto simp: current_def split: option.splits)
  from a(2) have "a < length (heap w)" "heap w ! a = Entity_obj e"
    by (auto simp: load_Entity_def load_def split: if_splits obj.splits)
  then have "Entity_obj e \<in> set (heap w)" by (metis nth_mem)
  with assms(1) have "obj_bound w (Entity_obj e)" by (simp add: well_formed_def list_all_iff)
  then have "Transform_bound w (currentEntityId w) (transform e)"
    using a(3) by (simp add: obj_bound_def)
  with a show ?thesis by (auto simp: Transform_bound_def split: option.splits)
qed

lemma self_current:
  assumes "current w"
  shows "self w = Inr (the (self_var w), w)"
  using assms
  by (auto simp: self_def self_is_stale_def seq_def current_def split: option.splits)

lemma self_transform_field_current:
  assumes "well_formed w" "current w"
  shows "\<exists>p. self_transform_field c w = Inr (p, w) \<and> Vec3_bound w (currentEntityId w) c p"
proof -
  from current_path [OF assms] obtain a e tr where
    p: "self_var w = Some a" "load_Entity w a = Some e" "load_Transform w (transform e) = Some tr"
    "Vec3_bound w (currentEntityId w) Position (position tr)"
    "Vec3_bound w (currentEntityId w) Rotation (rotation tr)"
    "Vec3_bound w (currentEntityId w) Scale (scale tr)" by blast
  show ?thesis
    using p self_current [OF assms(2)]
    by (cases c) (simp_all add: self_transform_field_def seq_def Entity_transform_def
        Transform_field_def Transform_position_def Transform_rotation_def Transform_scale_def)
qed

lemma Vec3_get_bound:
  assumes "Vec3_bound w i c p"
  shows "Vec3_get ax H p w = Inr (invoke_getter H (getter_of c ax) i w)"
  using assms
  by (cases ax) (auto simp: Vec3_bound_def Vec3_get_def Vec3_get_x_def Vec3_get_y_def
      Vec3_get_z_def split: option.splits)

lemma Vec3_set_bound:
  assumes "Vec3_bound w i c p"
  shows "Vec3_set ax H p v w = Inr (invoke_setter H (setter_of c ax) i v w)"
  using assms
  by (cases ax) (auto simp: Vec3_bound_def Vec3_set_def Vec3_set_x_def Vec3_set_y_def
      Vec3_set_z_def split: option.splits)

lemma read_self_current:
  assumes "well_formed w" "current w"
  shows "read_self c ax H w = Inr (invoke_getter H (getter_of c ax) (currentEntityId w) w)"
proof -
  from self_transform_field_current [OF assms] obtain p where
    "self_transform_field c w = Inr (p, w)" "Vec3_bound w (currentEntityId w) c p" by blast
  then show ?thesis by (simp add: read_self_def seq_def Vec3_get_bound)
qed

lemma write_self_current:
  assumes "well_formed w" "current w"
  shows "write_self c ax H v w = Inr (invoke_setter H (setter_of c ax) (currentEntityId w) v w)"
proof -
  from self_transform_field_current [OF assms] obtain p where
    "self_transform_field c w = Inr (p, w)" "Vec3_bound w (currentEntityId w) c p" by blast
  then show ?thesis by (simp add: write_self_def seq_def Vec3_set_bound)
qed

lemma self_after_self:
  assumes "well_formed w"
  shows "self w = self (after_self w)"
proof -
  from assms have "self_var_valid w" by (simp add: well_formed_def)
  then show ?thesis
    by (simp add: self_eq self_current [OF current_after_self])
qed

lemma read_self_eq:
  assumes "well_formed w"
  shows "read_self c ax H w =
           Inr (invoke_getter H (getter_of c ax) (currentEntityId w) (after_self w))"
proof -
  have "read_self c ax H w = read_self c ax H (after_self w)"
    by (simp add: read_self_def self_transform_field_def self_after_self [OF assms])
  then show ?thesis
    using read_self_current [OF wf_after_self [OF assms] current_after_self, of c ax H]
    by (simp add: after_self_frame)
qed

lemma write_self_eq:
  assumes "well_formed w"
  shows "write_self c ax H v w =
           Inr (invoke_setter H (setter_of c ax) (currentEntityId w) v (after_self w))"
proof -
  have "write_self c ax H v w = write_self c ax H v (after_self w)"
    by (simp add: write_self_def self_transform_field_def self_after_self [OF assms])
  then show ?thesis
    using write_self_current [OF wf_after_self [OF assms] current_after_self, of c ax H v]
    by (simp add: after_self_frame)
qed

lemma current_same:
  assumes "heap w' = heap w" "self_var w' = self_var w" "currentEntityId w' = currentEntityId w"
  shows "current w' = current w"
  using assms by (simp add: current_def load_Entity_def load_def split: option.splits)

lemma invoke_getter_frame:
  "heap (snd (invoke_getter H g i w)) = heap w"
  "self_var (snd (invoke_getter H g i w)) = self_var w"
  "currentEntityId (snd (invoke_getter H g i w)) = currentEntityId w"
  "console (snd (invoke_getter H g i w)) = console w"
  "calls (snd (invoke_getter H g i w)) = calls w @ [Getter_call g i]"
  "hstate (snd (invoke_getter H g i w)) = snd (call_getter H g i (hstate w))"
  "fst (invoke_getter H g i w) = fst (call_getter H g i (hstate w))"
  by (simp_all add: invoke_getter_def split_def Let_def)

lemma invoke_setter_frame:
  "heap (invoke_setter H s i v w) = heap w"
  "self_var (invoke_setter H s i v w) = self_var w"
  "currentEntityId (invoke_setter H s i v w) = currentEntityId w"
  "console (invoke_setter H s i v w) = console w"
  "calls (invoke_setter H s i v w) = calls w @ [Setter_call s i v]"
  "hstate (invoke_setter H s i v w) = call_setter H s i v (hstate w)"
  by (simp_all add: invoke_setter_def)

lemma console_log_frame:
  "heap (console_log s w) = heap w"
  "self_var (console_log s w) = self_var w"
  "currentEntityId (console_log s w) = currentEntityId w"
  "calls (console_log s w) = calls w"
  "hstate (console_log s w) = hstate w"
  by (simp_all add: console_log_def)

lemma wf_invoke_getter: "well_formed w \<Longrightarrow> well_formed (snd (invoke_getter H g i w))"
  by (rule wf_same_heap) (simp_all add: invoke_getter_frame)

lemma wf_invoke_setter: "well_formed w \<Longrightarrow> well_formed (invoke_setter H s i v w)"
  by (rule wf_same_heap) (simp_all add: invoke_setter_frame)

lemma wf_console_log: "well_formed w \<Longrightarrow> well_formed (console_log s w)"
  by (rule wf_same_heap) (simp_all add: console_log_frame)

lemma wf_setCurrentEntity: "well_formed w \<Longrightarrow> well_formed (setCurrentEntity i w)"
  by (rule wf_same_heap) (simp_all add: setCurrentEntity_def)

lemma current_invoke_getter: "current (snd (invoke_getter H g i w)) = current w"
  by (rule current_same) (simp_all add: invoke_getter_frame)

lemma current_invoke_setter: "current (invoke_setter H s i v w) = current w"
  by (rule current_same) (simp_all add: invoke_setter_frame)

lemma read_self_ok:
  assumes "well_formed w" "current w"
  shows "read_self c ax H w = Inr (invoke_getter H (getter_of c ax) (currentEntityId w) w)"
  using read_self_eq [OF assms(1)] assms(2) by (simp add: after_self_current)

lemma write_self_ok:
  assumes "well_formed w" "current w"
  shows "write_self c ax H v w = Inr (invoke_setter H (setter_of c ax) (currentEntityId w) v w)"
  using write_self_eq [OF assms(1)] assms(2) by (simp add: after_self_current)

lemma add_assign_self_ok:
  assumes "well_formed w" "current w"
  shows "add_assign_self c ax H F rhs w =
           Inr (invoke_setter H (setter_of c ax) (currentEntityId w)
                  (f32_add F (fst (invoke_getter H (getter_of c ax) (currentEntityId w) w)) rhs)
                  (snd (invoke_getter H (getter_of c ax) (currentEntityId w) w)))"
  using assms
  by (simp add: add_assign_self_def seq_def read_self_ok split_def write_self_ok
      wf_invoke_getter current_invoke_getter invoke_getter_frame)

lemmas ok_simps =
  wf_invoke_getter wf_invoke_setter wf_console_log wf_after_self
  current_invoke_getter current_invoke_setter current_after_self
  invoke_getter_frame(3) invoke_setter_frame(3) console_log_frame(3) after_self_frame(1)
  after_self_current

lemma current_console_log: "current (console_log s w) = current w"
  by (rule current_same) (simp_all add: console_log_frame)

lemma init_eq:
  assumes "well_formed w"
  shows "init H F w =
           Inr (init_tail H F (after_self (console_log ''Setting initial position'' w)))"
  using assms
  by (simp add: init_def seq_def write_self_eq write_self_ok read_self_ok split_def
      init_tail_def Let_def ok_simps)

lemma update_eq:
  assumes "well_formed w"
  shows "update H F dt w = Inr (update_tail H F dt (after_self w))"
  using assms
  by (simp add: update_def seq_def read_self_eq read_self_ok add_assign_self_ok split_def
      update_tail_def Let_def ok_simps)

lemma init_tail_frame:
  "heap (init_tail H F w) = heap w"
  "self_var (init_tail H F w) = self_var w"
  "currentEntityId (init_tail H F w) = currentEntityId w"
  by (simp_all add: init_tail_def Let_def console_log_frame invoke_getter_frame
      invoke_setter_frame)

lemma update_tail_frame:
  "heap (update_tail H F dt w) = heap w"
  "self_var (update_tail H F dt w) = self_var w"
  "currentEntityId (update_tail H F dt w) = currentEntityId w"
  by (simp_all add: update_tail_def Let_def console_log_frame invoke_getter_frame
      invoke_setter_frame)

lemma wf_init:
  assumes "well_formed w" "init H F w = Inr w'"
  shows "well_formed w'"
proof -
  let ?v = "after_self (console_log ''Setting initial position'' w)"
  have "well_formed ?v" using assms(1) by (simp add: ok_simps)
  then have "well_formed (init_tail H F ?v)"
    by (rule wf_same_heap [rotated 2]) (simp_all add: init_tail_frame)
  with assms show ?thesis by (simp add: init_eq)
qed

lemma wf_update:
  assumes "well_formed w" "update H F dt w = Inr w'"
  shows "well_formed w'"
proof -
  have "well_formed (after_self w)" using assms(1) by (simp add: ok_simps)
  then have "well_formed (update_tail H F dt (after_self w))"
    by (rule wf_same_heap [rotated 2]) (simp_all add: update_tail_frame)
  with assms show ?thesis by (simp add: update_eq)
qed

lemma Vec3_get_frame:
  assumes "Vec3_get ax H p w = Inr (v, w')"
  shows "heap w' = heap w \<and> self_var w' = self_var w \<and> currentEntityId w' = currentEntityId w"
  using assms
  by (cases ax) (auto simp: Vec3_get_def Vec3_get_x_def Vec3_get_y_def Vec3_get_z_def
      invoke_getter_def split_def Let_def split: option.splits)

lemma Vec3_set_frame:
  assumes "Vec3_set ax H p v w = Inr w'"
  shows "heap w' = heap w \<and> self_var w' = self_var w \<and> currentEntityId w' = currentEntityId w"
  using assms
  by (cases ax) (auto simp: Vec3_set_def Vec3_set_x_def Vec3_set_y_def Vec3_set_z_def
      invoke_setter_def split: option.splits)

lemma wf_step:
  assumes "well_formed w" "step H F o1 w = Inr w'"
  shows "well_formed w'"
proof (cases o1)
  case (Call_setCurrentEntity i)
  with assms show ?thesis by (auto simp: step_def wf_setCurrentEntity)
next
  case Call_self
  from assms(1) have "self_var_valid w" by (simp add: well_formed_def)
  with assms Call_self show ?thesis
    by (auto simp: step_def seq_def self_eq wf_after_self)
next
  case (Get_axis p ax)
  with assms obtain v where "Vec3_get ax H p w = Inr (v, w')"
    by (auto simp: step_def seq_def split: sum.splits)
  from Vec3_get_frame [OF this] assms(1) show ?thesis by (auto intro: wf_same_heap)
next
  case (Set_axis p ax v)
  with assms have "Vec3_set ax H p v w = Inr w'" by (simp add: step_def)
  from Vec3_set_frame [OF this] assms(1) show ?thesis by (auto intro: wf_same_heap)
next
  case Call_init
  with assms show ?thesis by (auto simp: step_def dest: wf_init)
next
  case (Call_update dt)
  with assms show ?thesis by (auto simp: step_def dest: wf_update)
qed

lemma wf_run:
  assumes "well_formed w" "run H F os w = Inr w'"
  shows "well_formed w'"
  using assms
proof (induction os arbitrary: w)
  case Nil
  then show ?case by simp
next
  case (Cons o1 os)
  from Cons.prems(2) obtain w1 where s: "step H F o1 w = Inr w1" and r: "run H F os w1 = Inr w'"
    by (auto simp: seq_def split: sum.splits)
  from wf_step [OF Cons.prems(1) s] r show ?case by (rule Cons.IH)
qed

lemma wf_reachable:
  assumes "run H F os (initial h) = Inr w"
  shows "well_formed w"
  using wf_initial assms by (rule wf_run)

lemma demo_run:
  "run store_host demo_ops [Call_setCurrentEntity 7, Call_self] (initial (\<lambda>_. 0)) = Inr demo_world"
  by (simp add: step_def seq_def setCurrentEntity_def initial_def self_def self_is_stale_def
      new_Entity_eq demo_world_def)

lemma fresh_handle_eq:
  "fresh_handle w = (length (heap w) + 4, rebuilt w)"
  by (simp add: fresh_handle_def new_Entity_eq rebuilt_def)

lemma load_rebuilt_old:
  assumes "load w b = Some ob"
  shows "load (rebuilt w) b = Some ob"
  using assms by (rule load_mono [rotated]) (simp add: rebuilt_def)

lemma ids_agree_rebuilt:
  "ids_agree (rebuilt w) \<lparr>id_Entity = currentEntityId w, transform = length (heap w) + 3\<rparr>"
  by (simp add: ids_agree_def rebuilt_def load_Transform_def load_Vec3_def load_def nth_append
      built_def)

lemma self_calls_current:
  assumes "current w"
  shows "self_calls n w = Inr (replicate n (the (self_var w)), w)"
  by (induction n) (simp_all add: self_current [OF assms] seq_def)

lemma setCurrentEntity_fields:
  "currentEntityId (setCurrentEntity i w) = i"
  "self_var (setCurrentEntity i w) = self_var w"
  "heap (setCurrentEntity i w) = heap w"
  by (simp_all add: setCurrentEntity_def)

lemma load_Entity_setCurrentEntity [simp]:
  "load_Entity (setCurrentEntity i w) a = load_Entity w a"
  by (simp add: setCurrentEntity_def load_Entity_def load_def)

lemma load_Entity_rebuilt_old:
  assumes "load_Entity w a = Some e"
  shows "load_Entity (rebuilt w) a = Some e"
  using assms by (rule load_Entity_mono [rotated]) (simp add: rebuilt_def)

lemma load_Entity_less:
  assumes "load_Entity w a = Some e"
  shows "a < length (heap w)"
  using assms by (auto simp: load_Entity_def load_def split: if_splits)

lemma self_stale:
  assumes "self_var w = Some a" "load_Entity w a = Some e" "id_Entity e \<noteq> currentEntityId w"
  shows "self w = Inr (length (heap w) + 4, rebuilt w)"
  using assms
  by (simp add: self_def self_is_stale_def seq_def new_Entity_eq rebuilt_def)

lemma run_append:
  "run H F (os @ os') w = seq (run H F os w) (run H F os')"
  by (induction os arbitrary: w) (simp_all add: seq_def split: sum.splits)

lemma heap_after_self:
  "\<exists>xs. heap (after_self w) = heap w @ xs"
  by (simp add: after_self_def rebuilt_def)

lemma heap_step:
  assumes "well_formed w" "step H F o1 w = Inr w'"
  shows "\<exists>xs. heap w' = heap w @ xs"
proof (cases o1)
  case (Call_setCurrentEntity i)
  with assms show ?thesis by (auto simp: step_def setCurrentEntity_fields)
next
  case Call_self
  from assms(1) have "self_var_valid w" by (simp add: well_formed_def)
  with assms Call_self show ?thesis
    by (auto simp: step_def seq_def self_eq heap_after_self)
next
  case (Get_axis p ax)
  with assms obtain v where "Vec3_get ax H p w = Inr (v, w')"
    by (auto simp: step_def seq_def split: sum.splits)
  from Vec3_get_frame [OF this] show ?thesis by simp
next
  case (Set_axis p ax v)
  with assms have "Vec3_set ax H p v w = Inr w'" by (simp add: step_def)
  from Vec3_set_frame [OF this] show ?thesis by simp
next
  case Call_init
  with assms have "w' = init_tail H F (after_self (console_log ''Setting initial position'' w))"
    by (simp add: step_def init_eq)
  then show ?thesis
    using heap_after_self [of "console_log ''Setting initial position'' w"]
    by (simp add: init_tail_frame console_log_frame)
next
  case (Call_update dt)
  with assms have "w' = update_tail H F dt (after_self w)"
    by (simp add: step_def update_eq)
  then show ?thesis using heap_after_self [of w] by (simp add: update_tail_frame)
qed

lemma heap_run:
  assumes "well_formed w" "run H F os w = Inr w'"
  shows "\<exists>xs. heap w' = heap w @ xs"
  using assms
proof (induction os arbitrary: w)
  case Nil
  then show ?case by simp
next
  case (Cons o1 os)
  from Cons.prems(2) obtain w1 where s: "step H F o1 w = Inr w1" and r: "run H F os w1 = Inr w'"
    by (auto simp: seq_def split: sum.splits)
  from heap_step [OF Cons.prems(1) s] obtain xs where "heap w1 = heap w @ xs" by blast
  moreover from Cons.IH [OF wf_step [OF Cons.prems(1) s] r]
  obtain ys where "heap w' = heap w1 @ ys" by blast
  ultimately show ?case by simp
qed

lemma ids_agree_wf:
  assumes "well_formed w" "load_Entity w a = Some e"
  shows "ids_agree w e"
proof -
  from assms(2) have "a < length (heap w)" "heap w ! a = Entity_obj e"
    by (auto simp: load_Entity_def load_def split: if_splits obj.splits)
  then have "Entity_obj e \<in> set (heap w)" by (metis nth_mem)
  with assms(1) have "obj_bound w (Entity_obj e)" by (simp add: well_formed_def list_all_iff)
  then show ?thesis
    by (auto simp: obj_bound_def Transform_bound_def Vec3_bound_def ids_agree_def
        split: option.splits)
qed

lemma store_host_faithful: "faithful store_host (getter_of c ax) (setter_of c ax)"
  by (cases c; cases ax) (simp_all add: faithful_def store_host_def)

lemma Vec3_get_loaded:
  assumes "load_Vec3 w p = Some vec"
  shows "Vec3_get ax H p w = Inr (invoke_getter H (axis_getter ax vec) (id_Vec3 vec) w)"
  using assms
  by (cases ax) (simp_all add: Vec3_get_def Vec3_get_x_def Vec3_get_y_def Vec3_get_z_def
      axis_getter_def)

lemma Vec3_set_loaded:
  assumes "load_Vec3 w p = Some vec"
  shows "Vec3_set ax H p val w = Inr (invoke_setter H (axis_setter ax vec) (id_Vec3 vec) val w)"
  using assms
  by (cases ax) (simp_all add: Vec3_set_def Vec3_set_x_def Vec3_set_y_def Vec3_set_z_def
      axis_setter_def)

lemma invoke_getter_result:
  "(fst (invoke_getter H g i w), hstate (snd (invoke_getter H g i w))) =
     call_getter H g i (hstate w)"
  by (simp add: invoke_getter_frame)

lemma binade_up_numeral:
  "binade_up (numeral k) q b = (if 2 * b \<le> q then binade_up (pred_numeral k) q (2 * b) else b)"
  by (simp add: numeral_eq_Suc)

lemma binade_down_numeral:
  "binade_down (numeral k) q b = (if b \<le> q then b else binade_down (pred_numeral k) q (b / 2))"
  by (simp add: numeral_eq_Suc)

lemma floor_numeral_div:
  "\<lfloor>numeral a / numeral b :: rat\<rfloor> = numeral a div numeral b"
  "\<lfloor>- (numeral a / numeral b) :: rat\<rfloor> = - numeral a div numeral b"
  using floor_divide_of_int_eq [of "numeral a" "numeral b", where ?'a = rat]
    floor_divide_of_int_eq [of "- numeral a" "numeral b", where ?'a = rat]
  by simp_all

lemmas round_binary_eval =
  floor_numeral_div
  round_binary_def binade_def round_ties_even_def Let_def binade_up_numeral binade_down_numeral

lemma f64_round_literals:
  "f64_round (- 2) = Some (- 2)"
  "f64_round 1 = Some 1"
  "f64_round (101 / 100) = Some (4548635623644201 / 4503599627370496)"
  by (simp_all add: f64_round_def round_binary_eval)

lemma f32_round_values:
  "f32_round (- 2) = Some (- 2)"
  "f32_round 1 = Some 1"
  "f32_round (4548635623644201 / 4503599627370496) = Some (4236247 / 4194304)"
  "f32_round (1 / 2 * (4236247 / 4194304)) = Some (4236247 / 8388608)"
  "f32_round (- 2 + 4236247 / 8388608) = Some (- (12540969 / 8388608))"
  "f32_round (1 + 4236247 / 8388608) = Some (12624855 / 8388608)"
  by (simp_all add: f32_round_def round_binary_eval)

lemma binary32_literals:
  "f32_const (binary32 ts) (- 2) = Some (- 2)"
  "f32_const (binary32 ts) 1 = Some 1"
  "f32_const (binary32 ts) (101 / 100) = Some (4236247 / 4194304)"
  by (simp_all add: binary32_def f64_round_literals f32_round_values)

lemma binary32_step:
  "f32_mul (binary32 ts) (Some (1 / 2)) (Some (4236247 / 4194304)) = Some (4236247 / 8388608)"
  "f32_add (binary32 ts) (Some (- 2)) (Some (4236247 / 8388608)) = Some (- (12540969 / 8388608))"
  "f32_add (binary32 ts) (Some 1) (Some (4236247 / 8388608)) = Some (12624855 / 8388608)"
  using f32_round_values(4,5,6) by (simp_all add: binary32_def)

lemma hstate_init_tail:
  "hstate (init_tail store_host F w) =
     (hstate w)((get_entity_position_x, currentEntityId w) := f32_const F (- 2),
                (get_entity_position_y, currentEntityId w) := f32_const F 1)"
  by (simp add: init_tail_def Let_def console_log_frame invoke_getter_frame invoke_setter_frame
      store_host_def)

lemma hstate_update_tail:
  "hstate (update_tail store_host F dt w) =
     (hstate w)((get_entity_position_x, currentEntityId w) :=
                  f32_add F (hstate w (get_entity_position_x, currentEntityId w))
                    (f32_mul F dt (f32_const F (101 / 100))),
                (get_entity_position_y, currentEntityId w) :=
                  f32_add F (hstate w (get_entity_position_y, currentEntityId w))
                    (f32_mul F dt (f32_const F (101 / 100))))"
  by (simp add: update_tail_def Let_def console_log_frame invoke_getter_frame
      invoke_setter_frame store_host_def)

lemma current_init_tail: "current (init_tail H F w) = current w"
  by (rule current_same) (simp_all add: init_tail_frame)

lemma Vec3_bound_same_heap:
  assumes "heap w' = heap w"
  shows "Vec3_bound w' i c p = Vec3_bound w i c p"
  using assms by (simp add: Vec3_bound_def load_Vec3_def load_def)

lemma add_assign_once_eq:
  assumes "well_formed w"
  shows "add_assign_once c ax H F rhs w = add_assign_self c ax H F rhs w"
proof -
  let ?v = "after_self w"
  let ?i = "currentEntityId w"
  let ?r = "invoke_getter H (getter_of c ax) ?i ?v"
  have wf: "well_formed ?v" and cur: "current ?v" and i: "currentEntityId ?v = ?i"
    using assms by (simp_all add: ok_simps)
  from self_transform_field_current [OF wf cur, of c] obtain p where
    p: "self_transform_field c ?v = Inr (p, ?v)" "Vec3_bound ?v ?i c p"
    by (auto simp: i)
  have "self_transform_field c w = self_transform_field c ?v"
    by (simp add: self_transform_field_def self_after_self [OF assms])
  with p(1) have 1: "self_transform_field c w = Inr (p, ?v)" by simp
  have b: "Vec3_bound (snd ?r) ?i c p"
    using p(2) Vec3_bound_same_heap [of "snd ?r" ?v ?i c p] by (simp add: invoke_getter_frame)
  have "add_assign_once c ax H F rhs w =
          Inr (invoke_setter H (setter_of c ax) ?i (f32_add F (fst ?r) rhs) (snd ?r))"
    by (simp add: add_assign_once_def seq_def 1 Vec3_get_bound [OF p(2)] split_def
        Vec3_set_bound [OF b])
  moreover have "add_assign_self c ax H F rhs w =
          Inr (invoke_setter H (setter_of c ax) ?i (f32_add F (fst ?r) rhs) (snd ?r))"
    using assms
    by (simp add: add_assign_self_def seq_def read_self_eq split_def write_self_ok ok_simps)
  ultimately show ?thesis by simp
qed

lemma step_current:
  assumes "well_formed w" "current w" "\<not> is_setCurrentEntity o1" "step H F o1 w = Inr w'"
  shows "current w' \<and> self_var w' = self_var w \<and> heap w' = heap w"
proof (cases o1)
  case (Call_setCurrentEntity i)
  with assms(3) show ?thesis by (simp add: is_setCurrentEntity_def)
next
  case Call_self
  with assms show ?thesis by (auto simp: step_def seq_def self_current)
next
  case (Get_axis p ax)
  with assms obtain v where "Vec3_get ax H p w = Inr (v, w')"
    by (auto simp: step_def seq_def split: sum.splits)
  from Vec3_get_frame [OF this] assms(2) show ?thesis using current_same [of w' w] by simp
next
  case (Set_axis p ax v)
  with assms have "Vec3_set ax H p v w = Inr w'" by (simp add: step_def)
  from Vec3_set_frame [OF this] assms(2) show ?thesis using current_same [of w' w] by simp
next
  case Call_init
  let ?v = "console_log ''Setting initial position'' w"
  have "current ?v" using assms(2) by (simp add: current_console_log)
  with assms Call_init have "w' = init_tail H F ?v"
    by (simp add: step_def init_eq after_self_current)
  then show ?thesis
    using assms(2) current_same [of w' w] by (simp add: init_tail_frame console_log_frame)
next
  case (Call_update dt)
  with assms have "w' = update_tail H F dt w"
    by (simp add: step_def update_eq after_self_current)
  then show ?thesis using assms(2) current_same [of w' w] by (simp add: update_tail_frame)
qed

lemma run_current:
  assumes "well_formed w" "current w" "list_all (\<lambda>o1. \<not> is_setCurrentEntity o1) os"
    "run H F os w = Inr w'"
  shows "current w' \<and> self_var w' = self_var w \<and> heap w' = heap w"
  using assms
proof (induction os arbitrary: w)
  case Nil
  then show ?case by simp
next
  case (Cons o1 os)
  from Cons.prems(4) obtain w1 where s: "step H F o1 w = Inr w1" and r: "run H F os w1 = Inr w'"
    by (auto simp: seq_def split: sum.splits)
  from Cons.prems(3) have n: "\<not> is_setCurrentEntity o1"
    and ns: "list_all (\<lambda>o1. \<not> is_setCurrentEntity o1) os" by simp_all
  from step_current [OF Cons.prems(1,2) n s]
  have c: "current w1" "self_var w1 = self_var w" "heap w1 = heap w" by simp_all
  from Cons.IH [OF wf_step [OF Cons.prems(1) s] c(1) ns r] c show ?case by simp
qed

section \<open>The claims\<close>

text \<open>
  C1. In every reachable state \<^verbatim>\<open>self()\<close> follows the algorithm of the specification:
  when no handle is cached, or the cached handle's id differs from the current entity id,
  it constructs a fresh handle bound to the current id and stores it as the cache;
  otherwise it returns the cached handle and leaves the state as it is. The cached
  reference always points to a handle. The fresh handle is a new object, its id and the
  ids of its sub-bindings are the current id, the objects already in the store are
  untouched, and nothing but the store and the cache changes.
\<close>

theorem self_algorithm:
  assumes "run H F os (initial h) = Inr w"
  shows "(case self_var w of
            None \<Rightarrow> self w = Inr (fresh_handle w)
          | Some a \<Rightarrow>
              (case load_Entity w a of
                 None \<Rightarrow> False
               | Some e \<Rightarrow>
                   if id_Entity e \<noteq> currentEntityId w then self w = Inr (fresh_handle w)
                   else self w = Inr (a, w))) \<and>
         (\<exists>a' w' t. fresh_handle w = (a', w') \<and> load w a' = None \<and>
            load_Entity w' a' = Some \<lparr>id_Entity = currentEntityId w, transform = t\<rparr> \<and>
            ids_agree w' \<lparr>id_Entity = currentEntityId w, transform = t\<rparr> \<and>
            self_var w' = Some a' \<and>
            (\<forall>b ob. load w b = Some ob \<longrightarrow> load w' b = Some ob) \<and>
            currentEntityId w' = currentEntityId w \<and> hstate w' = hstate w \<and>
            calls w' = calls w \<and> console w' = console w)"
proof -
  have wf: "well_formed w" using assms by (rule wf_reachable)
  then have valid: "self_var_valid w" by (simp add: well_formed_def)
  have alg: "case self_var w of
            None \<Rightarrow> self w = Inr (fresh_handle w)
          | Some a \<Rightarrow>
              (case load_Entity w a of
                 None \<Rightarrow> False
               | Some e \<Rightarrow>
                   if id_Entity e \<noteq> currentEntityId w then self w = Inr (fresh_handle w)
                   else self w = Inr (a, w))"
    using valid
    by (auto simp: self_eq fresh_handle_eq after_self_def current_def rebuilt_def
        self_var_valid_def split: option.splits)
  have fresh: "load w (length (heap w) + 4) = None" by (simp add: load_def)
  have frame: "self_var (rebuilt w) = Some (length (heap w) + 4)"
    "currentEntityId (rebuilt w) = currentEntityId w" "hstate (rebuilt w) = hstate w"
    "calls (rebuilt w) = calls w" "console (rebuilt w) = console w"
    by (simp_all add: rebuilt_def)
  have old: "\<forall>b ob. load w b = Some ob \<longrightarrow> load (rebuilt w) b = Some ob"
    using load_rebuilt_old by blast
  show ?thesis
    using alg fresh frame load_Entity_rebuilt [of w] ids_agree_rebuilt [of w] old
    by (simp add: fresh_handle_eq)
qed

theorem self_algorithm_witness:
  "run store_host demo_ops [Call_setCurrentEntity 7, Call_self] (initial (\<lambda>_. 0)) = Inr demo_world \<and>
   self demo_world = Inr (4, demo_world) \<and>
   run store_host demo_ops [Call_setCurrentEntity 7, Call_self, Call_setCurrentEntity 8]
       (initial (\<lambda>_. 0)) = Inr (setCurrentEntity 8 demo_world) \<and>
   self (setCurrentEntity 8 demo_world) = Inr (fresh_handle (setCurrentEntity 8 demo_world)) \<and>
   fst (fresh_handle (setCurrentEntity 8 demo_world)) = 9"
proof -
  have r2: "run store_host demo_ops [Call_setCurrentEntity 7, Call_self, Call_setCurrentEntity 8]
       (initial (\<lambda>_. 0)) = Inr (setCurrentEntity 8 demo_world)"
    by (simp add: step_def seq_def setCurrentEntity_def initial_def self_def self_is_stale_def
        new_Entity_eq demo_world_def)
  have e: "load_Entity demo_world 4 = Some \<lparr>id_Entity = 7, transform = 3\<rparr>"
    "load_Entity (setCurrentEntity 8 demo_world) 4 = Some \<lparr>id_Entity = 7, transform = 3\<rparr>"
    by (simp_all add: demo_world_def built_def load_Entity_def load_def setCurrentEntity_def)
  have "self demo_world = Inr (4, demo_world)"
    using self_algorithm [OF demo_run] e by (simp add: demo_world_def)
  moreover have "self (setCurrentEntity 8 demo_world) = Inr (fresh_handle (setCurrentEntity 8 demo_world))"
    using self_algorithm [OF r2] e by (simp add: demo_world_def setCurrentEntity_def)
  moreover have "fst (fresh_handle (setCurrentEntity 8 demo_world)) = 9"
    by (simp add: fresh_handle_eq demo_world_def built_def setCurrentEntity_def)
  ultimately show ?thesis using demo_run r2 by simp
qed

text \<open>
  C2. From every reachable state, any number of consecutive calls of \<^verbatim>\<open>self()\<close> succeed
  and return one and the same reference; the state after all of them is the state after
  the first, so no call after the first rebuilds. The same holds with other operations in
  between, as long as none of them is \<^verbatim>\<open>setCurrentEntity\<close>: after any such run that
  returns, \<^verbatim>\<open>self()\<close> still returns that reference, and the store has not grown.
\<close>

theorem consecutive_self_calls:
  assumes "run H F os (initial h) = Inr w"
  shows "\<exists>a w'. self_calls (Suc n) w = Inr (replicate (Suc n) a, w') \<and>
           self w = Inr (a, w') \<and> self w' = Inr (a, w') \<and>
           (\<forall>os' w2. list_all (\<lambda>o1. \<not> is_setCurrentEntity o1) os' \<and>
                      run H F os' w' = Inr w2 \<longrightarrow>
              self w2 = Inr (a, w2) \<and> heap w2 = heap w')"
proof -
  have wf: "well_formed w" using assms by (rule wf_reachable)
  then have valid: "self_var_valid w" by (simp add: well_formed_def)
  let ?w = "after_self w"
  let ?a = "the (self_var ?w)"
  have 1: "self w = Inr (?a, ?w)" using valid by (rule self_eq)
  have 2: "self ?w = Inr (?a, ?w)" using current_after_self by (rule self_current)
  have "self_calls n ?w = Inr (replicate n ?a, ?w)"
    using current_after_self by (rule self_calls_current)
  with 1 have 3: "self_calls (Suc n) w = Inr (replicate (Suc n) ?a, ?w)"
    by (simp add: seq_def)
  have 4: "self w2 = Inr (?a, w2) \<and> heap w2 = heap ?w"
    if "list_all (\<lambda>o1. \<not> is_setCurrentEntity o1) os'" "run H F os' ?w = Inr w2" for os' w2
    using run_current [OF wf_after_self [OF wf] current_after_self that] self_current [of w2]
    by simp
  from 1 2 3 4 show ?thesis by blast
qed

theorem consecutive_self_calls_witness:
  "run store_host demo_ops [Call_setCurrentEntity 7, Call_self] (initial (\<lambda>_. 0)) = Inr demo_world \<and>
   self_calls 3 demo_world = Inr ([4, 4, 4], demo_world) \<and>
   (\<exists>w2. run store_host demo_ops [Call_init, Call_update 1] demo_world = Inr w2 \<and>
      self w2 = Inr (4, w2))"
proof -
  have s: "self demo_world = Inr (4, demo_world)"
    by (simp add: self_def self_is_stale_def seq_def demo_world_def built_def load_Entity_def
        load_def)
  from consecutive_self_calls [OF demo_run, of 2] s
  have c: "self_calls 3 demo_world = Inr ([4, 4, 4], demo_world)"
    and later: "\<And>os' w2. list_all (\<lambda>o1. \<not> is_setCurrentEntity o1) os' \<Longrightarrow>
      run store_host demo_ops os' demo_world = Inr w2 \<Longrightarrow> self w2 = Inr (4, w2)"
    by (auto simp: numeral_3_eq_3)
  have wf: "well_formed demo_world" using demo_run by (rule wf_reachable)
  let ?w1 = "init_tail store_host demo_ops (after_self (console_log ''Setting initial position'' demo_world))"
  let ?w2 = "update_tail store_host demo_ops 1 (after_self ?w1)"
  have i: "step store_host demo_ops Call_init demo_world = Inr ?w1"
    using wf by (simp add: step_def init_eq)
  have wf1: "well_formed ?w1" using wf i by (rule wf_step)
  have u: "step store_host demo_ops (Call_update 1) ?w1 = Inr ?w2"
    using wf1 by (simp add: step_def update_eq)
  have r: "run store_host demo_ops [Call_init, Call_update 1] demo_world = Inr ?w2"
    by (simp add: seq_def i u)
  have "list_all (\<lambda>o1. \<not> is_setCurrentEntity o1) [Call_init, Call_update (1::int)]"
    by (simp add: is_setCurrentEntity_def)
  from later [OF this r] r c demo_run show ?thesis by blast
qed

text \<open>
  C3. For distinct ids \<open>e1\<close> and \<open>e2\<close>, from every reachable state, the sequence
  \<^verbatim>\<open>setCurrentEntity(e1); self(); setCurrentEntity(e2); self(); setCurrentEntity(e1); self()\<close>
  succeeds, the first and the third handle are different objects, and at the end both
  have the id \<open>e1\<close>.
\<close>

theorem switch_and_return:
  assumes "run H F os (initial h) = Inr w" and "e1 \<noteq> e2"
  shows "\<exists>a1 w1 a2 w2 a3 w3 x1 x3.
           self (setCurrentEntity e1 w) = Inr (a1, w1) \<and>
           self (setCurrentEntity e2 w1) = Inr (a2, w2) \<and>
           self (setCurrentEntity e1 w2) = Inr (a3, w3) \<and>
           a1 \<noteq> a3 \<and>
           load_Entity w3 a1 = Some x1 \<and> id_Entity x1 = e1 \<and>
           load_Entity w3 a3 = Some x3 \<and> id_Entity x3 = e1"
proof -
  have "well_formed w" using assms(1) by (rule wf_reachable)
  then have "well_formed (setCurrentEntity e1 w)" by (rule wf_setCurrentEntity)
  then have valid: "self_var_valid (setCurrentEntity e1 w)" by (simp add: well_formed_def)
  define w1 where "w1 = after_self (setCurrentEntity e1 w)"
  have "current w1" unfolding w1_def by (rule current_after_self)
  moreover have "currentEntityId w1 = e1"
    by (simp add: w1_def after_self_frame setCurrentEntity_fields)
  ultimately obtain a1 x1 where
    a1: "self_var w1 = Some a1" "load_Entity w1 a1 = Some x1" "id_Entity x1 = e1"
    by (auto simp: current_def split: option.splits)
  have s1: "self (setCurrentEntity e1 w) = Inr (a1, w1)"
    using self_eq [OF valid] a1(1) by (simp add: w1_def)
  define w2 where "w2 = rebuilt (setCurrentEntity e2 w1)"
  define a2 where "a2 = length (heap w1) + 4"
  have s2: "self (setCurrentEntity e2 w1) = Inr (a2, w2)"
    using self_stale [of "setCurrentEntity e2 w1" a1 x1] a1 assms(2)
    by (simp add: setCurrentEntity_fields w2_def a2_def)
  have x2: "load_Entity w2 a2 = Some \<lparr>id_Entity = e2, transform = length (heap w1) + 3\<rparr>"
    "self_var w2 = Some a2"
    using load_Entity_rebuilt [of "setCurrentEntity e2 w1"]
    by (simp_all add: w2_def a2_def setCurrentEntity_fields) (simp add: rebuilt_def setCurrentEntity_fields)
  have o2: "load_Entity w2 a1 = Some x1"
    unfolding w2_def using a1(2) by (intro load_Entity_rebuilt_old) simp
  define w3 where "w3 = rebuilt (setCurrentEntity e1 w2)"
  define a3 where "a3 = length (heap w2) + 4"
  have s3: "self (setCurrentEntity e1 w2) = Inr (a3, w3)"
    using self_stale [of "setCurrentEntity e1 w2" a2] x2 assms(2)
    by (simp add: setCurrentEntity_fields w3_def a3_def)
  have x3: "load_Entity w3 a3 = Some \<lparr>id_Entity = e1, transform = length (heap w2) + 3\<rparr>"
    using load_Entity_rebuilt [of "setCurrentEntity e1 w2"]
    by (simp add: w3_def a3_def setCurrentEntity_fields)
  have o3: "load_Entity w3 a1 = Some x1"
    unfolding w3_def using o2 by (intro load_Entity_rebuilt_old) simp
  have "a1 < length (heap w2)" using o2 by (rule load_Entity_less)
  then have "a1 \<noteq> a3" by (simp add: a3_def)
  with s1 s2 s3 o3 a1(3) x3 show ?thesis by auto
qed

theorem switch_and_return_witness:
  "run store_host demo_ops [Call_setCurrentEntity 7, Call_self] (initial (\<lambda>_. 0)) = Inr demo_world \<and>
   (1 :: u32) \<noteq> 2 \<and>
   (\<exists>w1 w2 w3. self (setCurrentEntity 1 demo_world) = Inr (9, w1) \<and>
      self (setCurrentEntity 2 w1) = Inr (14, w2) \<and>
      self (setCurrentEntity 1 w2) = Inr (19, w3) \<and>
      map_option id_Entity (load_Entity w3 9) = Some 1 \<and>
      map_option id_Entity (load_Entity w3 19) = Some 1)"
proof -
  have ne: "(1 :: u32) \<noteq> 2" by simp
  from switch_and_return [OF demo_run ne] obtain a1 w1 a2 w2 a3 w3 x1 x3 where
    s: "self (setCurrentEntity 1 demo_world) = Inr (a1, w1)"
       "self (setCurrentEntity 2 w1) = Inr (a2, w2)"
       "self (setCurrentEntity 1 w2) = Inr (a3, w3)"
       "load_Entity w3 a1 = Some x1" "id_Entity x1 = 1"
       "load_Entity w3 a3 = Some x3" "id_Entity x3 = 1"
    by blast
  have c1: "self (setCurrentEntity 1 demo_world) = Inr (9, rebuilt (setCurrentEntity 1 demo_world))"
    by (simp add: self_def self_is_stale_def seq_def demo_world_def built_def load_Entity_def
        load_def setCurrentEntity_def new_Entity_eq rebuilt_def)
  with s(1) have a1: "a1 = 9" "w1 = rebuilt (setCurrentEntity 1 demo_world)" by simp_all
  have c2: "self (setCurrentEntity 2 w1) = Inr (14, rebuilt (setCurrentEntity 2 w1))"
    unfolding a1
    by (simp add: self_def self_is_stale_def seq_def demo_world_def built_def load_Entity_def
        load_def setCurrentEntity_def new_Entity_eq rebuilt_def nth_append)
  with s(2) have a2: "a2 = 14" "w2 = rebuilt (setCurrentEntity 2 w1)" by simp_all
  have c3: "self (setCurrentEntity 1 w2) = Inr (19, rebuilt (setCurrentEntity 1 w2))"
    unfolding a2 a1
    by (simp add: self_def self_is_stale_def seq_def demo_world_def built_def load_Entity_def
        load_def setCurrentEntity_def new_Entity_eq rebuilt_def nth_append)
  with s(3) have a3: "a3 = 19" by simp
  from s a1 a2 a3 demo_run ne show ?thesis by auto
qed

text \<open>
  C4. Every handle in the store of a reachable state satisfies the structural invariant:
  its transform exists and the position, rotation and scale bindings of that transform
  carry the handle's id. (A Transform has no id field of its own in the code; it is bound
  through its three sub-bindings.) The invariant is preserved by every further sequence of
  operations, because no operation changes an object that is already in the store.
\<close>

theorem handle_invariant:
  assumes "run H F os (initial h) = Inr w" and "load_Entity w a = Some e"
  shows "ids_agree w e \<and>
         (\<forall>os' w'. run H F os' w = Inr w' \<longrightarrow>
            (\<forall>b ob. load w b = Some ob \<longrightarrow> load w' b = Some ob) \<and> ids_agree w' e)"
proof -
  have wf: "well_formed w" using assms(1) by (rule wf_reachable)
  have later: "(\<forall>b ob. load w b = Some ob \<longrightarrow> load w' b = Some ob) \<and> ids_agree w' e"
    if r: "run H F os' w = Inr w'" for os' w'
  proof -
    from heap_run [OF wf r] obtain xs where xs: "heap w' = heap w @ xs" by blast
    have "well_formed w'" using wf r by (rule wf_run)
    moreover have "load_Entity w' a = Some e" using xs assms(2) by (rule load_Entity_mono)
    ultimately have "ids_agree w' e" by (rule ids_agree_wf)
    then show ?thesis using load_mono [OF xs] by blast
  qed
  from ids_agree_wf [OF wf assms(2)] later show ?thesis by blast
qed

theorem handle_invariant_witness:
  "run store_host demo_ops [Call_setCurrentEntity 7, Call_self] (initial (\<lambda>_. 0)) = Inr demo_world \<and>
   load_Entity demo_world 4 = Some \<lparr>id_Entity = 7, transform = 3\<rparr> \<and>
   ids_agree demo_world \<lparr>id_Entity = 7, transform = 3\<rparr> \<and>
   (\<exists>w'. run store_host demo_ops [Call_setCurrentEntity 8, Call_self, Call_init] demo_world = Inr w' \<and>
      load w' 4 = Some (Entity_obj \<lparr>id_Entity = 7, transform = 3\<rparr>) \<and>
      ids_agree w' \<lparr>id_Entity = 7, transform = 3\<rparr>)"
proof -
  have e: "load_Entity demo_world 4 = Some \<lparr>id_Entity = 7, transform = 3\<rparr>"
    by (simp add: demo_world_def built_def load_Entity_def load_def)
  have l: "load demo_world 4 = Some (Entity_obj \<lparr>id_Entity = 7, transform = 3\<rparr>)"
    by (simp add: demo_world_def built_def load_def)
  have wf: "well_formed demo_world" using demo_run by (rule wf_reachable)
  have wf1: "well_formed (after_self (setCurrentEntity 8 demo_world))"
    using wf by (simp add: wf_after_self wf_setCurrentEntity)
  have "self_var_valid (setCurrentEntity 8 demo_world)"
    using wf_setCurrentEntity [OF wf, of 8] by (simp add: well_formed_def)
  then have "\<exists>w'. run store_host demo_ops [Call_setCurrentEntity 8, Call_self, Call_init] demo_world = Inr w'"
    using wf1 by (simp add: step_def seq_def self_eq init_eq)
  then obtain w' where
    r: "run store_host demo_ops [Call_setCurrentEntity 8, Call_self, Call_init] demo_world = Inr w'"
    by blast
  from handle_invariant [OF demo_run e] r l e show ?thesis
    using demo_run by blast
qed

text \<open>
  C5. For every category, axis and value \<open>v\<close>, in every reachable state: if the host's
  getter and setter of that channel are a faithful store/load, then the assignment
  \<^verbatim>\<open>self().transform.<category>.<axis> = v\<close> followed by reading
  \<^verbatim>\<open>self().transform.<category>.<axis>\<close> succeeds and yields \<open>v\<close>.
\<close>

theorem write_then_read:
  assumes "run H F os (initial h) = Inr w"
    and "faithful H (getter_of c ax) (setter_of c ax)"
  shows "\<exists>w1 w2. write_self c ax H v w = Inr w1 \<and> read_self c ax H w1 = Inr (v, w2)"
proof -
  have wf: "well_formed w" using assms(1) by (rule wf_reachable)
  let ?i = "currentEntityId w"
  let ?w1 = "invoke_setter H (setter_of c ax) ?i v (after_self w)"
  have 1: "write_self c ax H v w = Inr ?w1" using wf by (rule write_self_eq)
  have ok: "well_formed ?w1" "current ?w1" "currentEntityId ?w1 = ?i"
    using wf by (simp_all add: ok_simps)
  have 2: "read_self c ax H ?w1 = Inr (invoke_getter H (getter_of c ax) ?i ?w1)"
    using read_self_ok [OF ok(1,2)] ok(3) by simp
  have "fst (invoke_getter H (getter_of c ax) ?i ?w1) = v"
    using assms(2)
    by (simp add: invoke_getter_frame invoke_setter_frame faithful_def)
  with 1 2 show ?thesis by (metis prod.collapse)
qed

theorem write_then_read_witness:
  "run store_host demo_ops [Call_setCurrentEntity 7, Call_self] (initial (\<lambda>_. 0)) = Inr demo_world \<and>
   faithful store_host (getter_of Rotation Y) (setter_of Rotation Y) \<and>
   (\<exists>w1 w2. write_self Rotation Y store_host 42 demo_world = Inr w1 \<and>
      read_self Rotation Y store_host w1 = Inr (42, w2))"
  using write_then_read [OF demo_run store_host_faithful, of Rotation Y 42]
    demo_run store_host_faithful [of Rotation Y]
  by simp

text \<open>
  C6. In every reachable state, reading or writing an axis of any Vec3 in the store makes
  exactly one host call: the log grows by one entry, for the function reference the
  binding holds for that axis and with the binding's stored id; the value read is the
  host's answer in the host's state at that moment and the host's state is what that call
  left. Reading \<^verbatim>\<open>self().transform.position.x\<close> twice in a row adds exactly two getter
  calls to the log, the second asking the host again.
\<close>

theorem one_host_call_per_access:
  assumes "run H F os (initial h) = Inr w"
  shows "(\<forall>p vec ax val. load_Vec3 w p = Some vec \<longrightarrow>
            (\<exists>v w'. Vec3_get ax H p w = Inr (v, w') \<and>
               calls w' = calls w @ [Getter_call (axis_getter ax vec) (id_Vec3 vec)] \<and>
               (v, hstate w') = call_getter H (axis_getter ax vec) (id_Vec3 vec) (hstate w)) \<and>
            (\<exists>w'. Vec3_set ax H p val w = Inr w' \<and>
               calls w' = calls w @ [Setter_call (axis_setter ax vec) (id_Vec3 vec) val] \<and>
               hstate w' = call_setter H (axis_setter ax vec) (id_Vec3 vec) val (hstate w))) \<and>
         (\<exists>v1 w1 v2 w2.
            read_self Position X H w = Inr (v1, w1) \<and>
            read_self Position X H w1 = Inr (v2, w2) \<and>
            calls w2 = calls w @ [Getter_call get_entity_position_x (currentEntityId w),
                                  Getter_call get_entity_position_x (currentEntityId w)] \<and>
            (v1, hstate w1) = call_getter H get_entity_position_x (currentEntityId w) (hstate w) \<and>
            (v2, hstate w2) = call_getter H get_entity_position_x (currentEntityId w) (hstate w1))"
proof -
  have wf: "well_formed w" using assms by (rule wf_reachable)
  have raw: "(\<exists>v w'. Vec3_get ax H p w = Inr (v, w') \<and>
               calls w' = calls w @ [Getter_call (axis_getter ax vec) (id_Vec3 vec)] \<and>
               (v, hstate w') = call_getter H (axis_getter ax vec) (id_Vec3 vec) (hstate w)) \<and>
            (\<exists>w'. Vec3_set ax H p val w = Inr w' \<and>
               calls w' = calls w @ [Setter_call (axis_setter ax vec) (id_Vec3 vec) val] \<and>
               hstate w' = call_setter H (axis_setter ax vec) (id_Vec3 vec) val (hstate w))"
    if l: "load_Vec3 w p = Some vec" for p vec ax val
  proof -
    let ?r = "invoke_getter H (axis_getter ax vec) (id_Vec3 vec) w"
    have "Vec3_get ax H p w = Inr (fst ?r, snd ?r)" using Vec3_get_loaded [OF l] by simp
    moreover have "calls (snd ?r) = calls w @ [Getter_call (axis_getter ax vec) (id_Vec3 vec)]"
      by (simp add: invoke_getter_frame)
    moreover note invoke_getter_result [of H "axis_getter ax vec" "id_Vec3 vec" w]
    ultimately have g: "\<exists>v w'. Vec3_get ax H p w = Inr (v, w') \<and>
               calls w' = calls w @ [Getter_call (axis_getter ax vec) (id_Vec3 vec)] \<and>
               (v, hstate w') = call_getter H (axis_getter ax vec) (id_Vec3 vec) (hstate w)"
      by blast
    show ?thesis using g Vec3_set_loaded [OF l] by (simp add: invoke_setter_frame)
  qed
  let ?i = "currentEntityId w"
  let ?r1 = "invoke_getter H get_entity_position_x ?i (after_self w)"
  let ?r2 = "invoke_getter H get_entity_position_x ?i (snd ?r1)"
  have 1: "read_self Position X H w = Inr (fst ?r1, snd ?r1)"
    using read_self_eq [OF wf, of Position X H] by simp
  have ok: "well_formed (snd ?r1)" "current (snd ?r1)" "currentEntityId (snd ?r1) = ?i"
    using wf by (simp_all add: ok_simps)
  have 2: "read_self Position X H (snd ?r1) = Inr (fst ?r2, snd ?r2)"
    using read_self_ok [OF ok(1,2), of Position X H] ok(3) by simp
  have 3: "calls (snd ?r2) = calls w @ [Getter_call get_entity_position_x ?i,
                                        Getter_call get_entity_position_x ?i]"
    by (simp add: invoke_getter_frame after_self_frame)
  have 4: "(fst ?r1, hstate (snd ?r1)) = call_getter H get_entity_position_x ?i (hstate w)"
    using invoke_getter_result [of H get_entity_position_x ?i "after_self w"]
    by (simp add: after_self_frame)
  have 5: "(fst ?r2, hstate (snd ?r2)) =
             call_getter H get_entity_position_x ?i (hstate (snd ?r1))"
    by (rule invoke_getter_result)
  from 1 2 3 4 5 have "\<exists>v1 w1 v2 w2.
            read_self Position X H w = Inr (v1, w1) \<and>
            read_self Position X H w1 = Inr (v2, w2) \<and>
            calls w2 = calls w @ [Getter_call get_entity_position_x (currentEntityId w),
                                  Getter_call get_entity_position_x (currentEntityId w)] \<and>
            (v1, hstate w1) = call_getter H get_entity_position_x (currentEntityId w) (hstate w) \<and>
            (v2, hstate w2) = call_getter H get_entity_position_x (currentEntityId w) (hstate w1)"
    by blast
  with raw show ?thesis by blast
qed

theorem one_host_call_per_access_witness:
  "run store_host demo_ops [Call_setCurrentEntity 7, Call_self] (initial (\<lambda>_. 0)) = Inr demo_world \<and>
   map_option id_Vec3 (load_Vec3 demo_world 1) = Some 7 \<and>
   (\<exists>v w'. Vec3_get Z store_host 1 demo_world = Inr (v, w') \<and>
      calls w' = [Getter_call get_entity_rotation_z 7]) \<and>
   (\<exists>w'. Vec3_set Z store_host 1 5 demo_world = Inr w' \<and>
      calls w' = [Setter_call set_entity_rotation_z 7 5]) \<and>
   (\<exists>v1 w1 v2 w2.
      read_self Position X store_host demo_world = Inr (v1, w1) \<and>
      read_self Position X store_host w1 = Inr (v2, w2) \<and>
      calls w2 = [Getter_call get_entity_position_x 7, Getter_call get_entity_position_x 7])"
proof -
  let ?vec = "\<lparr>id_Vec3 = 7, getterX = get_entity_rotation_x, setterX = set_entity_rotation_x,
                getterY = get_entity_rotation_y, setterY = set_entity_rotation_y,
                getterZ = get_entity_rotation_z, setterZ = set_entity_rotation_z\<rparr>"
  have l: "load_Vec3 demo_world 1 = Some ?vec"
    by (simp add: demo_world_def built_def load_Vec3_def load_def)
  have c: "calls demo_world = []" "currentEntityId demo_world = 7"
    by (simp_all add: demo_world_def)
  note t = one_host_call_per_access [OF demo_run]
  from t l have "\<exists>v w'. Vec3_get Z store_host 1 demo_world = Inr (v, w') \<and>
      calls w' = calls demo_world @ [Getter_call (axis_getter Z ?vec) (id_Vec3 ?vec)]"
    by blast
  moreover from t l have "\<exists>w'. Vec3_set Z store_host 1 5 demo_world = Inr w' \<and>
      calls w' = calls demo_world @ [Setter_call (axis_setter Z ?vec) (id_Vec3 ?vec) 5]"
    by blast
  moreover from t have "\<exists>v1 w1 v2 w2.
      read_self Position X store_host demo_world = Inr (v1, w1) \<and>
      read_self Position X store_host w1 = Inr (v2, w2) \<and>
      calls w2 = calls demo_world @ [Getter_call get_entity_position_x (currentEntityId demo_world),
         Getter_call get_entity_position_x (currentEntityId demo_world)]"
    by blast
  ultimately show ?thesis using demo_run l c
    by (simp add: axis_getter_def axis_setter_def)
qed

text \<open>
  C7. \<^verbatim>\<open>setCurrentEntity(id)\<close> overwrites \<^verbatim>\<open>currentEntityId\<close> with \<open>id\<close>, for every
  32-bit value and without any check, and changes nothing else: the cached handle, the
  store, the host's state, the log of host calls and the console are as before.
\<close>

theorem setCurrentEntity_frame:
  "currentEntityId (setCurrentEntity i w) = i \<and>
   self_var (setCurrentEntity i w) = self_var w \<and>
   heap (setCurrentEntity i w) = heap w \<and>
   hstate (setCurrentEntity i w) = hstate w \<and>
   calls (setCurrentEntity i w) = calls w \<and>
   console (setCurrentEntity i w) = console w"
  by (simp add: setCurrentEntity_def)

text \<open>
  C8. Before any call of \<^verbatim>\<open>setCurrentEntity\<close> the current entity id is 0, and the first
  \<^verbatim>\<open>self()\<close> does not fail: it returns a handle (not null) whose id is 0, whose transform
  and sub-bindings are bound to 0, and which is now the cached handle.
\<close>

theorem self_before_setCurrentEntity:
  "currentEntityId (initial h) = 0 \<and>
   (\<exists>a w' t. self (initial h) = Inr (a, w') \<and> self_var w' = Some a \<and>
      load_Entity w' a = Some \<lparr>id_Entity = 0, transform = t\<rparr> \<and>
      ids_agree w' \<lparr>id_Entity = 0, transform = t\<rparr>)"
  by (simp add: initial_def self_def self_is_stale_def seq_def new_Entity_eq built_def
      load_Entity_def load_def ids_agree_def load_Transform_def load_Vec3_def)

text \<open>
  C9. On the mock host that stores and loads faithfully, whatever its cells hold at the
  start and with binary32 arithmetic: after \<^verbatim>\<open>setCurrentEntity(7)\<close> and \<^verbatim>\<open>init()\<close> the
  host has \<open>position.x = -2\<close> and \<open>position.y = 1\<close> for entity 7; after
  \<^verbatim>\<open>update(0.5)\<close> it has \<open>x = -12540969 / 2 ^ 23\<close> and \<open>y = 12624855 / 2 ^ 23\<close>
  (-1.4950000047683716 and 1.5049999952316284), each within \<open>2 ^ -24\<close>, half a unit in
  the last place of an \<^verbatim>\<open>f32\<close> between 1 and 2, of -1.495 and of 1.505. Both calls
  return normally.
\<close>

theorem mover_scenario:
  "\<exists>w1 w2.
     run store_host (binary32 ts) [Call_setCurrentEntity 7, Call_init] (initial h) = Inr w1 \<and>
     hstate w1 (get_entity_position_x, 7) = Some (- 2) \<and>
     hstate w1 (get_entity_position_y, 7) = Some 1 \<and>
     run store_host (binary32 ts) [Call_update (Some (1 / 2))] w1 = Inr w2 \<and>
     hstate w2 (get_entity_position_x, 7) = Some (- (12540969 / 8388608)) \<and>
     hstate w2 (get_entity_position_y, 7) = Some (12624855 / 8388608) \<and>
     \<bar>- (12540969 / 8388608) - (- (1495 / 1000))\<bar> \<le> (1 / 2 ^ 24 :: rat) \<and>
     \<bar>12624855 / 8388608 - 1505 / 1000\<bar> \<le> (1 / 2 ^ 24 :: rat)"
proof -
  let ?H = "store_host :: (rat option cells, rat option) host_table"
  let ?F = "binary32 ts"
  let ?w0 = "setCurrentEntity 7 (initial h) :: (rat option cells, rat option) world"
  let ?v = "after_self (console_log ''Setting initial position'' ?w0)"
  let ?w1 = "init_tail ?H ?F ?v"
  let ?w2 = "update_tail ?H ?F (Some (1 / 2)) ?w1"
  have wf0: "well_formed ?w0" by (simp add: wf_setCurrentEntity wf_initial)
  have r1: "run ?H ?F [Call_setCurrentEntity 7, Call_init] (initial h) = Inr ?w1"
    using init_eq [OF wf0, of ?H ?F] by (simp add: step_def seq_def)
  have wf1: "well_formed ?w1" using wf_initial r1 by (rule wf_run)
  have cur1: "current ?w1" by (simp add: current_init_tail current_after_self)
  have id1: "currentEntityId ?w1 = 7"
    by (simp add: init_tail_frame after_self_frame console_log_frame setCurrentEntity_fields)
  have idv: "currentEntityId ?v = 7"
    by (simp add: after_self_frame console_log_frame setCurrentEntity_fields)
  have r2: "run ?H ?F [Call_update (Some (1 / 2))] ?w1 = Inr ?w2"
    using update_eq [OF wf1, of ?H ?F] cur1 by (simp add: step_def seq_def after_self_current)
  have x1: "hstate ?w1 (get_entity_position_x, 7) = Some (- 2)"
    and y1: "hstate ?w1 (get_entity_position_y, 7) = Some 1"
    by (simp_all add: hstate_init_tail idv binary32_literals)
  have x2: "hstate ?w2 (get_entity_position_x, 7) = Some (- (12540969 / 8388608))"
    by (simp only: hstate_update_tail id1 x1 binary32_literals binary32_step)
       simp
  have y2: "hstate ?w2 (get_entity_position_y, 7) = Some (12624855 / 8388608)"
    by (simp only: hstate_update_tail id1 y1 binary32_literals binary32_step)
       simp
  have tol: "\<bar>- (12540969 / 8388608) - (- (1495 / 1000))\<bar> \<le> (1 / 2 ^ 24 :: rat)"
    "\<bar>12624855 / 8388608 - 1505 / 1000\<bar> \<le> (1 / 2 ^ 24 :: rat)"
    by simp_all
  from r1 x1 y1 r2 x2 y2 tol show ?thesis by blast
qed

text \<open>
  C10. Invalidation compares ids only: in a state (reachable or not) whose cache holds a
  handle with id \<open>k\<close>, \<^verbatim>\<open>setCurrentEntity(k); self()\<close> returns the cached handle and
  builds nothing.
\<close>

theorem setCurrentEntity_same_id:
  assumes "self_var w = Some a" "load_Entity w a = Some e" "id_Entity e = k"
  shows "self (setCurrentEntity k w) = Inr (a, setCurrentEntity k w)"
proof -
  have "current (setCurrentEntity k w)"
    using assms by (simp add: current_def setCurrentEntity_fields)
  from self_current [OF this] assms(1) show ?thesis by (simp add: setCurrentEntity_fields)
qed

theorem setCurrentEntity_same_id_witness:
  "run store_host demo_ops [Call_setCurrentEntity 7, Call_self] (initial (\<lambda>_. 0)) = Inr demo_world \<and>
   self_var demo_world = Some 4 \<and>
   load_Entity demo_world 4 = Some \<lparr>id_Entity = 7, transform = 3\<rparr> \<and>
   self (setCurrentEntity 7 demo_world) = Inr (4, setCurrentEntity 7 demo_world)"
proof -
  have 1: "self_var demo_world = Some 4" by (simp add: demo_world_def)
  have 2: "load_Entity demo_world 4 = Some \<lparr>id_Entity = 7, transform = 3\<rparr>"
    by (simp add: demo_world_def built_def load_Entity_def load_def)
  have 3: "id_Entity \<lparr>id_Entity = 7, transform = 3\<rparr> = (7 :: u32)" by simp
  from setCurrentEntity_same_id [OF 1 2 3] 1 2 demo_run show ?thesis by simp
qed

end
